theory Spec2Isabelle
  imports Main
begin

section \<open>Mapping page paths to organizations\<close>

text \<open>
  The backend of the CMS (the Python snippets of \<^verbatim>\<open>GUIDE.md\<close>) identifies a page by
  its URL path and maps it to an organization of the identity platform:
  \<^verbatim>\<open>
  PagePath = NewType("PagePath", List[str])

  def get_page_path(page_path: str) -> PagePath:
      """Returns the page path elements, ignoring extra slashes"""
      return PagePath([x for x in page_path.split("/") if x])
  \<close>
  \<open>split sep s\<close> is Python's \<^verbatim>\<open>s.split(sep)\<close> for a one-character separator: it
  cuts at every separator and keeps the empty pieces, so \<^verbatim>\<open>"".split("/")\<close> is
  \<^verbatim>\<open>['']\<close> and \<^verbatim>\<open>"/".split("/")\<close> is \<^verbatim>\<open>['', '']\<close>.
\<close>

type_synonym page_path = "string list"

fun split :: "char \<Rightarrow> string \<Rightarrow> string list" where
  "split sep [] = [[]]"
| "split sep (c # cs) =
     (if c = sep then [] # split sep cs
      else (case split sep cs of
              [] \<Rightarrow> [[c]]
            | w # ws \<Rightarrow> (c # w) # ws))"

definition get_page_path :: "string \<Rightarrow> page_path" where
  "get_page_path page_path = filter (\<lambda>x. x \<noteq> []) (split CHR ''/'' page_path)"

text \<open>
  \<open>join sep xs\<close> is Python's \<^verbatim>\<open>sep.join(xs)\<close>. The organization name of a page is
  computed inline, in \<^verbatim>\<open>get_page_id\<close> and again in \<^verbatim>\<open>post_page\<close>, as
  \<^verbatim>\<open>"/".join([slashid.ROOT_ORG_NAME] + page_path)\<close>; \<open>org_name\<close> is that expression.
\<close>

fun join :: "string \<Rightarrow> string list \<Rightarrow> string" where
  "join sep [] = []"
| "join sep [x] = x"
| "join sep (x # y # ys) = x @ sep @ join sep (y # ys)"

definition org_name :: "string \<Rightarrow> page_path \<Rightarrow> string" where
  "org_name ROOT_ORG_NAME page_path = join ''/'' ([ROOT_ORG_NAME] @ page_path)"

text \<open>
  The key as the specification writes it,
  \<^verbatim>\<open>rootName + "/" + join(identity.segments, "/")\<close>, for comparison with \<open>org_name\<close>.
\<close>

definition toOrganizationKey_spec :: "page_path \<Rightarrow> string \<Rightarrow> string" where
  "toOrganizationKey_spec segments rootName = rootName @ ''/'' @ join ''/'' segments"

text \<open>
  Two raw paths differ only in empty segments when one is obtained from the other by
  adding or removing slashes that open no new non-empty segment: a slash at the start,
  a slash at the end, or a slash next to another slash.
\<close>

inductive slash_variant :: "string \<Rightarrow> string \<Rightarrow> bool" where
  same: "slash_variant p p"
| leading: "slash_variant p (CHR ''/'' # p)"
| trailing: "slash_variant p (p @ ''/'')"
| repeated: "slash_variant (a @ ''/'' @ b) (a @ ''//'' @ b)"
| sym: "slash_variant p q \<Longrightarrow> slash_variant q p"
| trans: "slash_variant p q \<Longrightarrow> slash_variant q r \<Longrightarrow> slash_variant p r"

section \<open>The identity platform\<close>

text \<open>
  Users, pages and permissions, as the backend declares them:
  \<^verbatim>\<open>UserID = NewType("UserID", str)\<close>, a \<^verbatim>\<open>PageID\<close> is the identifier of the page's
  organization, and
  \<^verbatim>\<open>
  class Permission(Enum):
      Read = "read"
      Write = "write"
      Admin = "admin"
  \<close>
\<close>

type_synonym user_id = string
type_synonym page_id = string

datatype permission = Read | Write | Admin

text \<open>
  What a handler can raise. \<open>HTTPException\<close> carries the status code and the detail;
  the detail of the 403 is an f-string over the two permission sets, kept here as the
  two sets. \<open>ApiException\<close> is the generated client's exception with the status the
  platform answered; \<open>ValueError\<close> and \<open>AssertionError\<close> are Python's. A handler
  does not catch the last three unless the model says so: the framework turns them
  into a 500 response.
\<close>

datatype detail = Detail string | Missing_permissions "permission set" "permission set"

datatype error =
    HTTPException nat detail
  | ApiException nat
  | ValueError string
  | AssertionError

abbreviation HTTP_400_BAD_REQUEST :: nat where "HTTP_400_BAD_REQUEST \<equiv> 400"
abbreviation HTTP_401_UNAUTHORIZED :: nat where "HTTP_401_UNAUTHORIZED \<equiv> 401"
abbreviation HTTP_403_FORBIDDEN :: nat where "HTTP_403_FORBIDDEN \<equiv> 403"
abbreviation HTTP_404_NOT_FOUND :: nat where "HTTP_404_NOT_FOUND \<equiv> 404"
abbreviation HTTP_409_CONFLICT :: nat where "HTTP_409_CONFLICT \<equiv> 409"
abbreviation HTTP_501_NOT_IMPLEMENTED :: nat where "HTTP_501_NOT_IMPLEMENTED \<equiv> 501"

definition ROOT_ORG_ID :: page_id where
  "ROOT_ORG_ID = ''00000000-0000-0000-0000-000000000000''"

definition ADMIN_EMAILS :: "string list" where
  "ADMIN_EMAILS = [''me@example.com'']"

datatype person_handle_type = EMAIL_ADDRESS | PHONE_NUMBER

datatype person_handle = PersonHandle person_handle_type string

text \<open>
  The identity platform is a service outside the repository; the backend reaches it
  through a generated client. Its state, as far as the handlers below read or change
  it:
  \<^item> \<open>organizations\<close>: the organizations by name, each with its identifier;
  \<^item> \<open>persons\<close>: the members of each organization, in the order the platform lists them;
  \<^item> \<open>groups\<close>: the groups of a person in an organization;
  \<^item> \<open>handles\<close>: the persons of the shared person pool, each with its handles (a
    person that is not listed is unknown to the platform); \<open>person_of\<close>: the person a
    list of handles identifies;
  \<^item> \<open>names\<close>: the \<^verbatim>\<open>name\<close> attribute of a person, when set;
  \<^item> \<open>unused_org_ids\<close>: the identifiers the platform gives to the organizations it
    creates next.
  The operations follow what the guide says of each endpoint: deleting a person from
  an organization removes the membership ("you actually remove the user from that
  suborg"), and \<^verbatim>\<open>PUT /persons\<close> makes the person the handles identify a member, if
  needed, and sets the groups ("insert the user (if needed) and set the groups in a
  single API call"). Network failures are not part of the model: an operation fails
  only where the state says so.
\<close>

record platform =
  organizations :: "(string \<times> page_id) list"
  persons :: "page_id \<Rightarrow> user_id list"
  groups :: "page_id \<Rightarrow> user_id \<Rightarrow> string list"
  handles :: "(user_id \<times> person_handle list) list"
  person_of :: "person_handle list \<Rightarrow> user_id option"
  names :: "user_id \<Rightarrow> string option"
  unused_org_ids :: "page_id list"

text \<open>
  Modelled from the spec: \<^verbatim>\<open>get_org_id\<close> is called by \<^verbatim>\<open>get_page_id\<close> but is not among the
  guide's snippets ("SlashID APIs currently doesn't provide an efficient way of
  implementing get_org_id"). It is the lookup of an organization's identifier by its
  name, \<open>None\<close> when no organization has the name.
\<close>

definition get_org_id :: "platform \<Rightarrow> string \<Rightarrow> page_id option" where
  "get_org_id pf name = map_of (organizations pf) name"

definition persons_person_id_groups_get ::
  "platform \<Rightarrow> user_id \<Rightarrow> page_id \<Rightarrow> error + string list" where
  "persons_person_id_groups_get pf person_id slash_id_org_id =
     (if map_of (handles pf) person_id = None then Inl (ApiException HTTP_404_NOT_FOUND)
      else Inr (groups pf slash_id_org_id person_id))"

definition persons_get :: "platform \<Rightarrow> page_id \<Rightarrow> error + user_id list" where
  "persons_get pf slash_id_org_id = Inr (persons pf slash_id_org_id)"

definition persons_person_id_handles_get ::
  "platform \<Rightarrow> user_id \<Rightarrow> page_id \<Rightarrow> error + person_handle list option" where
  "persons_person_id_handles_get pf person_id slash_id_org_id =
     (if person_id \<in> set (persons pf slash_id_org_id) \<and> map_of (handles pf) person_id \<noteq> None
      then Inr (map_of (handles pf) person_id)
      else Inl (ApiException HTTP_404_NOT_FOUND))"

definition persons_person_id_attributes_bucket_name_get ::
  "platform \<Rightarrow> user_id \<Rightarrow> page_id \<Rightarrow> error + string option option" where
  "persons_person_id_attributes_bucket_name_get pf person_id slash_id_org_id =
     (if person_id \<in> set (persons pf slash_id_org_id) \<and> map_of (handles pf) person_id \<noteq> None
      then Inr (Some (names pf person_id))
      else Inl (ApiException HTTP_404_NOT_FOUND))"

definition persons_person_id_delete ::
  "platform \<Rightarrow> user_id \<Rightarrow> page_id \<Rightarrow> error + platform" where
  "persons_person_id_delete pf person_id slash_id_org_id =
     (if person_id \<in> set (persons pf slash_id_org_id)
      then Inr (pf\<lparr>persons := (persons pf)
                      (slash_id_org_id := removeAll person_id (persons pf slash_id_org_id)),
                   groups := (groups pf)
                      (slash_id_org_id := (groups pf slash_id_org_id)(person_id := []))\<rparr>)
      else Inl (ApiException HTTP_404_NOT_FOUND))"

text \<open>
  \<^verbatim>\<open>PUT /persons\<close> with handles that identify no person would create one; the backend
  only sends handles it has just read from a person, and the model answers 400 to
  any other request.
\<close>

definition persons_put ::
  "platform \<Rightarrow> page_id \<Rightarrow> person_handle list \<Rightarrow> string list \<Rightarrow> error + platform" where
  "persons_put pf slash_id_org_id req_handles req_groups =
     (case person_of pf req_handles of
        None \<Rightarrow> Inl (ApiException HTTP_400_BAD_REQUEST)
      | Some person_id \<Rightarrow>
          Inr (pf\<lparr>persons := (persons pf)
                      (slash_id_org_id :=
                         (if person_id \<in> set (persons pf slash_id_org_id)
                          then persons pf slash_id_org_id
                          else persons pf slash_id_org_id @ [person_id])),
                   groups := (groups pf)
                      (slash_id_org_id := (groups pf slash_id_org_id)(person_id := req_groups))\<rparr>))"

text \<open>
  Creating a suborganization: the parent must exist and the name must be free; the new
  organization starts without members. The backend passes the parent as the
  organization whose pools of persons and groups the new one shares
  (\<^verbatim>\<open>persons_org_id\<close>, \<^verbatim>\<open>groups_org_id\<close>); the model has the one pool of persons of
  \<open>handles\<close>. The admins of the request are console users of the platform, not members.
  The result is the new organization's identifier (the client types the result as
  optional) and the platform after the call.
\<close>

definition organizations_suborganizations_post ::
  "platform \<Rightarrow> page_id \<Rightarrow> string \<Rightarrow> person_handle list \<Rightarrow> error + (page_id option \<times> platform)" where
  "organizations_suborganizations_post pf slash_id_org_id sub_org_name admins =
     (if slash_id_org_id \<notin> set (map snd (organizations pf))
      then Inl (ApiException HTTP_404_NOT_FOUND)
      else if sub_org_name \<in> set (map fst (organizations pf))
      then Inl (ApiException HTTP_409_CONFLICT)
      else (case unused_org_ids pf of
              [] \<Rightarrow> Inl (ApiException 500)
            | new_id # ids \<Rightarrow>
                Inr (Some new_id,
                     pf\<lparr>organizations := organizations pf @ [(sub_org_name, new_id)],
                        persons := (persons pf)(new_id := []),
                        groups := (groups pf)(new_id := (\<lambda>person_id. [])),
                        unused_org_ids := ids\<rparr>)))"

section \<open>Building blocks of the backend\<close>

text \<open>
  The configuration fixed at startup: the name of the root organization
  (\<^verbatim>\<open>ROOT_ORG_NAME = await get_org_name(ROOT_ORG_ID)\<close>) and the outcome of the JWT
  validation, \<open>jwt_sub\<close>, which gives the \<^verbatim>\<open>sub\<close> claim of a bearer token that
  validates and \<open>None\<close> for one that does not (the validation itself is
  \<^verbatim>\<open>jwt.decode\<close>, a library call).
\<close>

record config =
  ROOT_ORG_NAME :: string
  jwt_sub :: "string \<Rightarrow> user_id option"

text \<open>
  \<^verbatim>\<open>
  def get_user_id(token) -> UserID | None:
      if token is None:
          return None
      try:
          ...
          return UserID(decoded_token["sub"])
      except Exception:
          raise HTTPException(status_code=status.HTTP_401_UNAUTHORIZED,
                              detail="Could not validate credentials", ...)

  def require_user_id(user_id) -> UserID:
      if user_id is not None:
          return user_id
      raise HTTPException(status_code=status.HTTP_401_UNAUTHORIZED,
                          detail="Requires user credentials", ...)
  \<close>
  The token is the bearer credential of the request, \<open>None\<close> when the request has
  none (\<^verbatim>\<open>HTTPBearer(auto_error=False)\<close>).
\<close>

definition get_user_id :: "config \<Rightarrow> string option \<Rightarrow> error + user_id option" where
  "get_user_id cfg token =
     (case token of
        None \<Rightarrow> Inr None
      | Some credentials \<Rightarrow>
          (case jwt_sub cfg credentials of
             Some sub \<Rightarrow> Inr (Some sub)
           | None \<Rightarrow> Inl (HTTPException HTTP_401_UNAUTHORIZED
                              (Detail ''Could not validate credentials''))))"

definition require_user_id :: "user_id option \<Rightarrow> error + user_id" where
  "require_user_id user_id =
     (case user_id of
        Some u \<Rightarrow> Inr u
      | None \<Rightarrow> Inl (HTTPException HTTP_401_UNAUTHORIZED (Detail ''Requires user credentials'')))"

text \<open>
  \<^verbatim>\<open>
  async def get_page_id(page_path) -> PageID | None:
      org_name = "/".join([slashid.ROOT_ORG_NAME] + page_path)
      org_id = await get_org_id(org_name)
      if org_id is None:
          return None
      return PageID(org_id)

  def require_page_id(page_id) -> PageID:
      if page_id is not None:
          return page_id
      raise HTTPException(status_code=status.HTTP_404_NOT_FOUND, detail="Page not found")
  \<close>
\<close>

definition get_page_id :: "config \<Rightarrow> platform \<Rightarrow> page_path \<Rightarrow> page_id option" where
  "get_page_id cfg pf page_path =
     (case get_org_id pf (org_name (ROOT_ORG_NAME cfg) page_path) of
        None \<Rightarrow> None
      | Some org_id \<Rightarrow> Some org_id)"

definition require_page_id :: "page_id option \<Rightarrow> error + page_id" where
  "require_page_id page_id =
     (case page_id of
        Some p \<Rightarrow> Inr p
      | None \<Rightarrow> Inl (HTTPException HTTP_404_NOT_FOUND (Detail ''Page not found'')))"

text \<open>
  \<open>Permission g\<close> is the enum's constructor \<^verbatim>\<open>Permission(group)\<close>, which raises
  \<^verbatim>\<open>ValueError\<close> on a string that is no member's value; \<open>permission_value\<close> is
  \<^verbatim>\<open>permission.value\<close>.
  \<^verbatim>\<open>
  async def get_permissions(user_id, page_id) -> Set[Permission]:
      if user_id is None or page_id is None:
          return set()
      groups_api = GroupsApi()
      groups = (await groups_api.persons_person_id_groups_get(
                    person_id=user_id, slash_id_org_id=str(page_id))).result
      return {Permission(group) for group in groups}
  \<close>
\<close>

definition Permission :: "string \<Rightarrow> error + permission" where
  "Permission g =
     (if g = ''read'' then Inr Read
      else if g = ''write'' then Inr Write
      else if g = ''admin'' then Inr Admin
      else Inl (ValueError g))"

fun permission_value :: "permission \<Rightarrow> string" where
  "permission_value Read = ''read''"
| "permission_value Write = ''write''"
| "permission_value Admin = ''admin''"

fun permissions_of_groups :: "string list \<Rightarrow> error + permission set" where
  "permissions_of_groups [] = Inr {}"
| "permissions_of_groups (g # gs) =
     (case Permission g of
        Inl e \<Rightarrow> Inl e
      | Inr p \<Rightarrow>
          (case permissions_of_groups gs of
             Inl e \<Rightarrow> Inl e
           | Inr ps \<Rightarrow> Inr (insert p ps)))"

definition get_permissions ::
  "platform \<Rightarrow> user_id option \<Rightarrow> page_id option \<Rightarrow> error + permission set" where
  "get_permissions pf user_id page_id =
     (case (user_id, page_id) of
        (Some u, Some p) \<Rightarrow>
          (case persons_person_id_groups_get pf u p of
             Inl e \<Rightarrow> Inl e
           | Inr gs \<Rightarrow> permissions_of_groups gs)
      | _ \<Rightarrow> Inr {})"

text \<open>
  \<^verbatim>\<open>
  def require_permissions(*permissions: Permission):
      async def wrapped(user_id, page_id) -> Set[Permission]:
          if user_id is None:
              raise HTTPException(status_code=status.HTTP_401_UNAUTHORIZED,
                                  detail="Requires user credentials")
          if page_id is None:
              raise HTTPException(status_code=status.HTTP_404_NOT_FOUND, detail="Page not found")
          actual_permissions = await get_permissions(user_id=user_id, page_id=page_id)
          for permission in permissions:
              if permission not in actual_permissions:
                  raise HTTPException(status_code=status.HTTP_403_FORBIDDEN,
                      detail=f"Missing permissions. Requires: {set(permissions)}. Has: {actual_permissions}")
          return actual_permissions
      return wrapped
  \<close>
  \<open>missing\<close> is the loop: whether it reaches a permission the caller does not have.
\<close>

fun missing :: "permission list \<Rightarrow> permission set \<Rightarrow> bool" where
  "missing [] actual_permissions = False"
| "missing (p # ps) actual_permissions =
     (if p \<notin> actual_permissions then True else missing ps actual_permissions)"

definition require_permissions ::
  "permission list \<Rightarrow> platform \<Rightarrow> user_id option \<Rightarrow> page_id option \<Rightarrow> error + permission set" where
  "require_permissions permissions pf user_id page_id =
     (if user_id = None
      then Inl (HTTPException HTTP_401_UNAUTHORIZED (Detail ''Requires user credentials''))
      else if page_id = None
      then Inl (HTTPException HTTP_404_NOT_FOUND (Detail ''Page not found''))
      else (case get_permissions pf user_id page_id of
              Inl e \<Rightarrow> Inl e
            | Inr actual_permissions \<Rightarrow>
                if missing permissions actual_permissions
                then Inl (HTTPException HTTP_403_FORBIDDEN
                            (Missing_permissions (set permissions) actual_permissions))
                else Inr actual_permissions))"

text \<open>
  \<^verbatim>\<open>
  async def set_user_permissions(user_id, page_id, permissions) -> None:
      persons_api = PersonsApi()
      if page_id != ROOT_ORG_ID and permissions == set():
          await persons_api.persons_person_id_delete(person_id=user_id, slash_id_org_id=page_id)
      else:
          handles = (await persons_api.persons_person_id_handles_get(
                         person_id=user_id, slash_id_org_id=ROOT_ORG_ID)).result
          assert handles is not None
          await persons_api.persons_put(
              slash_id_org_id=page_id,
              person_create_req=PersonCreateReq(
                  handles=handles,
                  groups=[permission.value for permission in permissions], ...))
  \<close>
  Python does not fix the order in which a set is iterated; \<open>permission_values\<close>
  lists the values in the order of the enum.
\<close>

definition permission_values :: "permission set \<Rightarrow> string list" where
  "permission_values permissions =
     map permission_value (filter (\<lambda>p. p \<in> permissions) [Read, Write, Admin])"

definition set_user_permissions ::
  "platform \<Rightarrow> user_id \<Rightarrow> page_id \<Rightarrow> permission set \<Rightarrow> error + platform" where
  "set_user_permissions pf user_id page_id permissions =
     (if page_id \<noteq> ROOT_ORG_ID \<and> permissions = {}
      then persons_person_id_delete pf user_id page_id
      else (case persons_person_id_handles_get pf user_id ROOT_ORG_ID of
              Inl e \<Rightarrow> Inl e
            | Inr None \<Rightarrow> Inl AssertionError
            | Inr (Some hs) \<Rightarrow> persons_put pf page_id hs (permission_values permissions)))"

section \<open>The page handlers\<close>

text \<open>
  \<^verbatim>\<open>
  class Page(BaseModel):
      public: bool
      contents: str

  pages = defaultdict[PageID, Page](lambda: Page(public=False, contents="default content"))
  \<close>
  The state of the application is the dictionary of pages together with the platform.
  Looking a missing key up in a \<^verbatim>\<open>defaultdict\<close> stores the default under the key and
  returns it: \<open>pages_getitem\<close> returns the page and the dictionary after the lookup.
\<close>

record page =
  public :: bool
  contents :: string

record state =
  pages :: "page_id \<Rightarrow> page option"
  platform :: platform

definition default_page :: page where
  "default_page = \<lparr>public = False, contents = ''default content''\<rparr>"

definition pages_getitem ::
  "(page_id \<Rightarrow> page option) \<Rightarrow> page_id \<Rightarrow> page \<times> (page_id \<Rightarrow> page option)" where
  "pages_getitem ps page_id =
     (case ps page_id of
        Some p \<Rightarrow> (p, ps)
      | None \<Rightarrow> (default_page, ps(page_id \<mapsto> default_page)))"

text \<open>
  A handler returns what it returns or raises, and the state it leaves behind.
  \<^verbatim>\<open>
  async def get_page(person_id, page_id) -> str:
      content = pages[page_id]
      if not content.public:
          await require_permissions(Permission.Read)(person_id, page_id)
      return content.contents
  \<close>
\<close>

definition get_page :: "state \<Rightarrow> user_id option \<Rightarrow> page_id \<Rightarrow> (error + string) \<times> state" where
  "get_page st person_id page_id =
     (case pages_getitem (pages st) page_id of
        (content, ps) \<Rightarrow>
          if \<not> public content
          then (case require_permissions [Read] (platform st) person_id (Some page_id) of
                  Inl e \<Rightarrow> (Inl e, st\<lparr>pages := ps\<rparr>)
                | Inr actual_permissions \<Rightarrow> (Inr (contents content), st\<lparr>pages := ps\<rparr>))
          else (Inr (contents content), st\<lparr>pages := ps\<rparr>))"

text \<open>
  \<^verbatim>\<open>
  async def put_page(page_id, body) -> None:
      pages[page_id].contents = body
  \<close>
\<close>

definition put_page :: "state \<Rightarrow> page_id \<Rightarrow> string \<Rightarrow> (error + unit) \<times> state" where
  "put_page st page_id body =
     (case pages_getitem (pages st) page_id of
        (p, ps) \<Rightarrow> (Inr (), st\<lparr>pages := ps(page_id \<mapsto> p\<lparr>contents := body\<rparr>)\<rparr>))"

text \<open>
  \<^verbatim>\<open>
  async def delete_page(page_id) -> None:
      raise HTTPException(status_code=status.HTTP_501_NOT_IMPLEMENTED,
                          detail="Suborg removal not implemented by SlashID API")
  \<close>
\<close>

definition delete_page :: "state \<Rightarrow> page_id \<Rightarrow> (error + unit) \<times> state" where
  "delete_page st page_id =
     (Inl (HTTPException HTTP_501_NOT_IMPLEMENTED
             (Detail ''Suborg removal not implemented by SlashID API'')), st)"

text \<open>
  \<^verbatim>\<open>
  async def post_page(person_id, page_path, page_id, body) -> None:
      if page_id is not None:
          raise HTTPException(status_code=status.HTTP_409_CONFLICT, detail="Page already exists")
      parent_page_path = PagePath(page_path[:-1])
      parent_page_id = require_page_id(await get_page_id(parent_page_path))
      parent_page_permissions = await require_permissions(Permission.Admin)(person_id, parent_page_id)
      orgs_api = OrganizationsApi()
      suborg = (await orgs_api.organizations_suborganizations_post(
                    slash_id_org_id=str(parent_page_id),
                    suborganization_create_request=SuborganizationCreateRequest(
                        sub_org_name="/".join([slashid.ROOT_ORG_NAME] + page_path),
                        admins=[PersonHandle(type=PersonHandleType(PersonHandleType.EMAIL_ADDRESS),
                                             value=admin_email)
                                for admin_email in ADMIN_EMAILS],
                        persons_org_id=str(parent_page_id),
                        groups_org_id=str(parent_page_id)))).result
      assert suborg is not None
      page_id = PageID(suborg.id)
      await set_user_permissions(user_id=person_id, page_id=page_id,
                                 permissions=parent_page_permissions)
      pages[page_id] = Page(public=pages[parent_page_id].public, contents=body)
  \<close>
  \<^verbatim>\<open>page_path[:-1]\<close> is \<open>butlast\<close>, also on the empty path. The right-hand side of the
  last assignment is evaluated first, so the parent's page is looked up (and stored,
  if it was missing) before the new page is stored.
\<close>

definition post_page ::
  "config \<Rightarrow> state \<Rightarrow> user_id \<Rightarrow> page_path \<Rightarrow> page_id option \<Rightarrow> string \<Rightarrow> (error + unit) \<times> state" where
  "post_page cfg st person_id page_path page_id body =
     (if page_id \<noteq> None
      then (Inl (HTTPException HTTP_409_CONFLICT (Detail ''Page already exists'')), st)
      else
        (case require_page_id (get_page_id cfg (platform st) (butlast page_path)) of
           Inl e \<Rightarrow> (Inl e, st)
         | Inr parent_page_id \<Rightarrow>
        (case require_permissions [Admin] (platform st) (Some person_id) (Some parent_page_id) of
           Inl e \<Rightarrow> (Inl e, st)
         | Inr parent_page_permissions \<Rightarrow>
        (case organizations_suborganizations_post (platform st) parent_page_id
                (org_name (ROOT_ORG_NAME cfg) page_path)
                (map (PersonHandle EMAIL_ADDRESS) ADMIN_EMAILS) of
           Inl e \<Rightarrow> (Inl e, st)
         | Inr (None, pf1) \<Rightarrow> (Inl AssertionError, st\<lparr>platform := pf1\<rparr>)
         | Inr (Some new_page_id, pf1) \<Rightarrow>
        (case set_user_permissions pf1 person_id new_page_id parent_page_permissions of
           Inl e \<Rightarrow> (Inl e, st\<lparr>platform := pf1\<rparr>)
         | Inr pf2 \<Rightarrow>
        (case pages_getitem (pages st) parent_page_id of
           (parent, ps) \<Rightarrow>
             (Inr (), st\<lparr>pages := ps(new_page_id \<mapsto> \<lparr>public = public parent, contents = body\<rparr>),
                         platform := pf2\<rparr>)))))))"

section \<open>The administration handlers\<close>

text \<open>
  \<^verbatim>\<open>
  class UserInfo(BaseModel):
      id: UserID
      name: str | None
      emails: List[str]
      phones: List[str]

  async def get_user_by_id(user_id) -> UserInfo:
      try:
          person_attrs = await attr_api.persons_person_id_attributes_bucket_name_get(
              person_id=str(user_id), slash_id_org_id=ROOT_ORG_ID, bucket_name=USER_NAME_ATTR_BUCKET)
          assert person_attrs.result is not None
          name = person_attrs.result.get(USER_NAME_ATTR_NAME)
          person_handles = (await persons_api.persons_person_id_handles_get(
                                person_id=user_id, slash_id_org_id=ROOT_ORG_ID)).result
          assert person_handles is not None
          return UserInfo(id=user_id, name=name,
              emails=[handle.value for handle in person_handles
                      if handle.type == PersonHandleType.EMAIL_ADDRESS],
              phones=[handle.value for handle in person_handles
                      if handle.type == PersonHandleType.PHONE_NUMBER])
      except ApiException as e:
          if e.status in [status.HTTP_404_NOT_FOUND, status.HTTP_400_BAD_REQUEST]:
              raise HTTPException(status_code=status.HTTP_404_NOT_FOUND,
                                  detail=f"No user with id {user_id} found")
          raise e
  \<close>
  The fields \<^verbatim>\<open>id\<close> and \<^verbatim>\<open>name\<close> are \<open>user_info_id\<close> and \<open>user_info_name\<close>
  here.
\<close>

record user_info =
  user_info_id :: user_id
  user_info_name :: "string option"
  emails :: "string list"
  phones :: "string list"

fun handle_type :: "person_handle \<Rightarrow> person_handle_type" where
  "handle_type (PersonHandle t v) = t"

fun handle_value :: "person_handle \<Rightarrow> string" where
  "handle_value (PersonHandle t v) = v"

definition except_ApiException :: "user_id \<Rightarrow> error \<Rightarrow> error" where
  "except_ApiException user_id e =
     (case e of
        ApiException status \<Rightarrow>
          if status \<in> set [HTTP_404_NOT_FOUND, HTTP_400_BAD_REQUEST]
          then HTTPException HTTP_404_NOT_FOUND
                 (Detail (''No user with id '' @ user_id @ '' found''))
          else e
      | _ \<Rightarrow> e)"

definition get_user_by_id :: "platform \<Rightarrow> user_id \<Rightarrow> error + user_info" where
  "get_user_by_id pf user_id =
     (case persons_person_id_attributes_bucket_name_get pf user_id ROOT_ORG_ID of
        Inl e \<Rightarrow> Inl (except_ApiException user_id e)
      | Inr None \<Rightarrow> Inl AssertionError
      | Inr (Some name) \<Rightarrow>
          (case persons_person_id_handles_get pf user_id ROOT_ORG_ID of
             Inl e \<Rightarrow> Inl (except_ApiException user_id e)
           | Inr None \<Rightarrow> Inl AssertionError
           | Inr (Some person_handles) \<Rightarrow>
               Inr \<lparr>user_info_id = user_id, user_info_name = name,
                    emails = map handle_value
                               (filter (\<lambda>h. handle_type h = EMAIL_ADDRESS) person_handles),
                    phones = map handle_value
                               (filter (\<lambda>h. handle_type h = PHONE_NUMBER) person_handles)\<rparr>))"

text \<open>
  \<^verbatim>\<open>
  class UserPermissions(BaseModel):
      user: UserInfo
      permissions: Set[Permission]

  class PageSettings(BaseModel):
      id: PageID
      public: bool
      users: List[UserPermissions]

  async def get_page_settings(page_id) -> PageSettings:
      persons = (await persons_api.persons_get(slash_id_org_id=page_id)).result

      async def get_user_permissions(user_id) -> UserPermissions | None:
          person_groups = (await groups_api.persons_person_id_groups_get(
                               person_id=user_id, slash_id_org_id=page_id)).result
          if not person_groups:
              return None
          return UserPermissions(user=await get_user_by_id(user_id),
                                 permissions=set(Permission(group) for group in person_groups))

      return PageSettings(id=page_id, public=pages[page_id].public,
          users=[user_permissions
                 for user_permissions in await asyncio.gather(
                     *[get_user_permissions(person.person_id) for person in persons])
                 if user_permissions])
  \<close>
  The calls under \<^verbatim>\<open>asyncio.gather\<close> only read the platform, so their results do not
  depend on how they interleave; \<open>gather_user_permissions\<close> collects them in the order
  of the persons and fails with the first failure in that order. The fields of the two
  classes are \<open>permissions_user\<close>, \<open>permissions_permissions\<close>, \<open>settings_id\<close>,
  \<open>settings_public\<close> and \<open>settings_users\<close> here.
\<close>

datatype user_permissions =
  UserPermissions (permissions_user: user_info) (permissions_permissions: "permission set")

datatype page_settings =
  PageSettings (settings_id: page_id) (settings_public: bool) (settings_users: "user_permissions list")

definition get_user_permissions ::
  "platform \<Rightarrow> page_id \<Rightarrow> user_id \<Rightarrow> error + user_permissions option" where
  "get_user_permissions pf page_id user_id =
     (case persons_person_id_groups_get pf user_id page_id of
        Inl e \<Rightarrow> Inl e
      | Inr person_groups \<Rightarrow>
          if person_groups = [] then Inr None
          else (case get_user_by_id pf user_id of
                  Inl e \<Rightarrow> Inl e
                | Inr info \<Rightarrow>
                    (case permissions_of_groups person_groups of
                       Inl e \<Rightarrow> Inl e
                     | Inr ps \<Rightarrow> Inr (Some (UserPermissions info ps)))))"

fun gather_user_permissions ::
  "platform \<Rightarrow> page_id \<Rightarrow> user_id list \<Rightarrow> error + user_permissions option list" where
  "gather_user_permissions pf page_id [] = Inr []"
| "gather_user_permissions pf page_id (u # us) =
     (case get_user_permissions pf page_id u of
        Inl e \<Rightarrow> Inl e
      | Inr r \<Rightarrow>
          (case gather_user_permissions pf page_id us of
             Inl e \<Rightarrow> Inl e
           | Inr rs \<Rightarrow> Inr (r # rs)))"

definition get_page_settings :: "state \<Rightarrow> page_id \<Rightarrow> (error + page_settings) \<times> state" where
  "get_page_settings st page_id =
     (case persons_get (platform st) page_id of
        Inl e \<Rightarrow> (Inl e, st)
      | Inr persons_result \<Rightarrow>
          (case pages_getitem (pages st) page_id of
             (p, ps) \<Rightarrow>
               (case gather_user_permissions (platform st) page_id persons_result of
                  Inl e \<Rightarrow> (Inl e, st\<lparr>pages := ps\<rparr>)
                | Inr rs \<Rightarrow>
                    (Inr (PageSettings page_id (public p) (List.map_filter (\<lambda>r. r) rs)),
                     st\<lparr>pages := ps\<rparr>))))"

text \<open>
  \<^verbatim>\<open>
  class UserPermissionsPatch(BaseModel):
      id: UserID
      permissions: Set[Permission] | None

  class PageSettingsPatch(BaseModel):
      public: bool | None = None
      users: List[UserPermissionsPatch] | None = None

  async def patch_page_settings(page_id, updates) -> None:
      if updates.public is not None:
          pages[page_id].public = updates.public
      if updates.users is not None:
          await asyncio.gather(
              *[set_user_permissions(user_id=user.id, page_id=page_id, permissions=user.permissions)
                for user in updates.users
                if user.permissions is not None])
  \<close>
  The fields of the two patches are \<open>patch_id\<close>, \<open>patch_permissions\<close>, \<open>patch_public\<close>
  and \<open>patch_users\<close> here.

  \<^verbatim>\<open>asyncio.gather\<close> starts every update before it waits for any of them. Each
  \<^verbatim>\<open>set_user_permissions\<close> runs up to its first request, the DELETE or the GET of the
  handles, and is suspended there; the PUT of an update is sent only when its GET has
  been answered, after the first requests of all the updates. An update that raises
  does not stop the others. So the platform sees the first requests in the order of
  the list and then the PUTs: \<open>set_user_permissions_start\<close> is an update up to the
  answer to its first request, \<open>set_user_permissions_finish\<close> is the rest of it, and
  \<open>gather_set_user_permissions\<close> starts all the updates in the order of the list and
  then finishes them in that order. The exception that \<^verbatim>\<open>asyncio.gather\<close> passes on is
  the first one raised, which is a matter of timing; the model reports the failure of
  the earliest failed update of the list. In which order the platform answers
  requests that are under way together is not fixed by the code either; the model
  takes the order of the list there too.
\<close>

datatype user_permissions_patch =
  UserPermissionsPatch (patch_id: user_id) (patch_permissions: "permission set option")

datatype page_settings_patch =
  PageSettingsPatch (patch_public: "bool option") (patch_users: "user_permissions_patch list option")

text \<open>
  An update after its first request: it has returned (the DELETE succeeded), it has
  raised (the first request failed), or it holds the handles the GET returned and the
  permissions it is to set.
\<close>

datatype suspended =
    Returned
  | Raised error
  | Got_handles "person_handle list option" "permission set"

definition set_user_permissions_start ::
  "platform \<Rightarrow> user_id \<Rightarrow> page_id \<Rightarrow> permission set \<Rightarrow> suspended \<times> platform" where
  "set_user_permissions_start pf user_id page_id permissions =
     (if page_id \<noteq> ROOT_ORG_ID \<and> permissions = {}
      then (case persons_person_id_delete pf user_id page_id of
              Inl e \<Rightarrow> (Raised e, pf)
            | Inr pf1 \<Rightarrow> (Returned, pf1))
      else (case persons_person_id_handles_get pf user_id ROOT_ORG_ID of
              Inl e \<Rightarrow> (Raised e, pf)
            | Inr hs \<Rightarrow> (Got_handles hs permissions, pf)))"

definition set_user_permissions_finish ::
  "platform \<Rightarrow> page_id \<Rightarrow> suspended \<Rightarrow> error + platform" where
  "set_user_permissions_finish pf page_id s =
     (case s of
        Returned \<Rightarrow> Inr pf
      | Raised e \<Rightarrow> Inl e
      | Got_handles None permissions \<Rightarrow> Inl AssertionError
      | Got_handles (Some hs) permissions \<Rightarrow>
          persons_put pf page_id hs (permission_values permissions))"

fun start_all ::
  "platform \<Rightarrow> page_id \<Rightarrow> (user_id \<times> permission set) list \<Rightarrow> suspended list \<times> platform" where
  "start_all pf page_id [] = ([], pf)"
| "start_all pf page_id ((user_id, ps) # rest) =
     (case set_user_permissions_start pf user_id page_id ps of
        (s, pf1) \<Rightarrow>
          (case start_all pf1 page_id rest of
             (ss, pf2) \<Rightarrow> (s # ss, pf2)))"

fun finish_all :: "platform \<Rightarrow> page_id \<Rightarrow> suspended list \<Rightarrow> (error + unit) \<times> platform" where
  "finish_all pf page_id [] = (Inr (), pf)"
| "finish_all pf page_id (s # ss) =
     (case set_user_permissions_finish pf page_id s of
        Inl e \<Rightarrow> (Inl e, snd (finish_all pf page_id ss))
      | Inr pf1 \<Rightarrow> finish_all pf1 page_id ss)"

definition gather_set_user_permissions ::
  "platform \<Rightarrow> page_id \<Rightarrow> (user_id \<times> permission set) list \<Rightarrow> (error + unit) \<times> platform" where
  "gather_set_user_permissions pf page_id updates =
     (case start_all pf page_id updates of
        (ss, pf1) \<Rightarrow> finish_all pf1 page_id ss)"

definition specified_users :: "user_permissions_patch list \<Rightarrow> (user_id \<times> permission set) list" where
  "specified_users us =
     List.map_filter
       (\<lambda>u. case patch_permissions u of None \<Rightarrow> None | Some ps \<Rightarrow> Some (patch_id u, ps)) us"

definition set_public :: "state \<Rightarrow> page_id \<Rightarrow> bool \<Rightarrow> state" where
  "set_public st page_id b =
     (case pages_getitem (pages st) page_id of
        (p, ps) \<Rightarrow> st\<lparr>pages := ps(page_id \<mapsto> p\<lparr>public := b\<rparr>)\<rparr>)"

definition patch_page_settings ::
  "state \<Rightarrow> page_id \<Rightarrow> page_settings_patch \<Rightarrow> (error + unit) \<times> state" where
  "patch_page_settings st page_id updates =
     (let st1 = (case patch_public updates of
                   None \<Rightarrow> st
                 | Some b \<Rightarrow> set_public st page_id b)
      in (case patch_users updates of
            None \<Rightarrow> (Inr (), st1)
          | Some us \<Rightarrow>
              (case gather_set_user_permissions (platform st1) page_id (specified_users us) of
                 (r, pf) \<Rightarrow> (r, st1\<lparr>platform := pf\<rparr>))))"

section \<open>The routes\<close>

text \<open>
  FastAPI resolves the dependencies of a route before it calls the handler: first the
  dependencies of the decorator (\<^verbatim>\<open>dependencies=[Depends(...)]\<close>), then those of the
  handler's parameters in the order of the signature, each after its own
  dependencies; the first exception ends the request. A dependency is computed once
  per request. \<open>depends_require_permissions\<close> is
  \<^verbatim>\<open>Depends(require_permissions(...))\<close>: its \<^verbatim>\<open>user_id\<close> is \<^verbatim>\<open>Depends(require_user_id)\<close>
  and its \<^verbatim>\<open>page_id\<close> is \<^verbatim>\<open>Depends(require_page_id)\<close>. A request is the bearer token (if
  any), the path after the router's prefix, and the body.
\<close>

definition depends_require_permissions ::
  "permission list \<Rightarrow> config \<Rightarrow> state \<Rightarrow> string option \<Rightarrow> string \<Rightarrow> error + permission set" where
  "depends_require_permissions permissions cfg st token raw_path =
     (case get_user_id cfg token of
        Inl e \<Rightarrow> Inl e
      | Inr credentials_user \<Rightarrow>
     (case require_user_id credentials_user of
        Inl e \<Rightarrow> Inl e
      | Inr user_id \<Rightarrow>
     (case require_page_id (get_page_id cfg (platform st) (get_page_path raw_path)) of
        Inl e \<Rightarrow> Inl e
      | Inr page_id \<Rightarrow>
          require_permissions permissions (platform st) (Some user_id) (Some page_id))))"

text \<open>
  \<^verbatim>\<open>
  @pages_router.get("/{page_path:path}", response_class=PlainTextResponse)
  async def get_page(person_id: Annotated[UserID, Depends(get_user_id)],
                     page_id: Annotated[PageID, Depends(require_page_id)]) -> str
  \<close>
\<close>

definition get_page_route ::
  "config \<Rightarrow> state \<Rightarrow> string option \<Rightarrow> string \<Rightarrow> (error + string) \<times> state" where
  "get_page_route cfg st token raw_path =
     (case get_user_id cfg token of
        Inl e \<Rightarrow> (Inl e, st)
      | Inr person_id \<Rightarrow>
     (case require_page_id (get_page_id cfg (platform st) (get_page_path raw_path)) of
        Inl e \<Rightarrow> (Inl e, st)
      | Inr page_id \<Rightarrow> get_page st person_id page_id))"

text \<open>
  \<^verbatim>\<open>
  @pages_router.put("/{page_path:path}", status_code=status.HTTP_204_NO_CONTENT,
                    dependencies=[Depends(require_permissions(Permission.Write))])
  async def put_page(page_id: Annotated[PageID, Depends(require_page_id)],
                     body: str = Body(..., media_type="text/plain")) -> None
  \<close>
\<close>

definition put_page_route ::
  "config \<Rightarrow> state \<Rightarrow> string option \<Rightarrow> string \<Rightarrow> string \<Rightarrow> (error + unit) \<times> state" where
  "put_page_route cfg st token raw_path body =
     (case depends_require_permissions [Write] cfg st token raw_path of
        Inl e \<Rightarrow> (Inl e, st)
      | Inr actual_permissions \<Rightarrow>
     (case require_page_id (get_page_id cfg (platform st) (get_page_path raw_path)) of
        Inl e \<Rightarrow> (Inl e, st)
      | Inr page_id \<Rightarrow> put_page st page_id body))"

text \<open>
  \<^verbatim>\<open>
  @pages_router.delete("/{page_path:path}", status_code=status.HTTP_204_NO_CONTENT,
                       dependencies=[Depends(require_permissions(Permission.Admin))])
  async def delete_page(page_id: Annotated[PageID, Depends(require_page_id)]) -> None
  \<close>
\<close>

definition delete_page_route ::
  "config \<Rightarrow> state \<Rightarrow> string option \<Rightarrow> string \<Rightarrow> (error + unit) \<times> state" where
  "delete_page_route cfg st token raw_path =
     (case depends_require_permissions [Admin] cfg st token raw_path of
        Inl e \<Rightarrow> (Inl e, st)
      | Inr actual_permissions \<Rightarrow>
     (case require_page_id (get_page_id cfg (platform st) (get_page_path raw_path)) of
        Inl e \<Rightarrow> (Inl e, st)
      | Inr page_id \<Rightarrow> delete_page st page_id))"

text \<open>
  \<^verbatim>\<open>
  @pages_router.post("/{page_path:path}", status_code=status.HTTP_204_NO_CONTENT)
  async def post_page(person_id: Annotated[UserID, Depends(require_user_id)],
                      page_path: Annotated[PagePath, Depends(get_page_path)],
                      page_id: Annotated[PageID, Depends(get_page_id)],
                      body: str = Body(..., media_type="text/plain")) -> None
  \<close>
\<close>

definition post_page_route ::
  "config \<Rightarrow> state \<Rightarrow> string option \<Rightarrow> string \<Rightarrow> string \<Rightarrow> (error + unit) \<times> state" where
  "post_page_route cfg st token raw_path body =
     (case get_user_id cfg token of
        Inl e \<Rightarrow> (Inl e, st)
      | Inr credentials_user \<Rightarrow>
     (case require_user_id credentials_user of
        Inl e \<Rightarrow> (Inl e, st)
      | Inr person_id \<Rightarrow>
          post_page cfg st person_id (get_page_path raw_path)
            (get_page_id cfg (platform st) (get_page_path raw_path)) body))"

text \<open>
  \<^verbatim>\<open>
  @admin_router.get("/{page_path:path}",
                    dependencies=[Depends(require_permissions(Permission.Admin))])
  async def get_page_settings(page_id: Annotated[PageID, Depends(require_page_id)]) -> PageSettings

  @admin_router.patch("/{page_path:path}", status_code=status.HTTP_204_NO_CONTENT,
                      dependencies=[Depends(require_permissions(Permission.Admin))])
  async def patch_page_settings(page_id: Annotated[PageID, Depends(require_page_id)],
                                updates: PageSettingsPatch) -> None
  \<close>
\<close>

definition get_page_settings_route ::
  "config \<Rightarrow> state \<Rightarrow> string option \<Rightarrow> string \<Rightarrow> (error + page_settings) \<times> state" where
  "get_page_settings_route cfg st token raw_path =
     (case depends_require_permissions [Admin] cfg st token raw_path of
        Inl e \<Rightarrow> (Inl e, st)
      | Inr actual_permissions \<Rightarrow>
     (case require_page_id (get_page_id cfg (platform st) (get_page_path raw_path)) of
        Inl e \<Rightarrow> (Inl e, st)
      | Inr page_id \<Rightarrow> get_page_settings st page_id))"

definition patch_page_settings_route ::
  "config \<Rightarrow> state \<Rightarrow> string option \<Rightarrow> string \<Rightarrow> page_settings_patch \<Rightarrow> (error + unit) \<times> state" where
  "patch_page_settings_route cfg st token raw_path updates =
     (case depends_require_permissions [Admin] cfg st token raw_path of
        Inl e \<Rightarrow> (Inl e, st)
      | Inr actual_permissions \<Rightarrow>
     (case require_page_id (get_page_id cfg (platform st) (get_page_path raw_path)) of
        Inl e \<Rightarrow> (Inl e, st)
      | Inr page_id \<Rightarrow> patch_page_settings st page_id updates))"

section \<open>The route guard of the frontend\<close>

text \<open>
  \<^verbatim>\<open>frontend/src/components/groups.tsx\<close>:
  \<^verbatim>\<open>
  const AssertGroups = ({ root, belongsTo, children,
    fallback = <Oops message="You do not have permission to view this page" />,
  }: Props) => {
    const { pageId } = usePageId({ root });
    const { raw, isGroupsLoading, isGroupsError } = useGroups({ root });
    const { data, isAdminPageInfoLoading, isAdminPageInfoError } =
      useAdminPageInfo({ pageId });

    if (isGroupsLoading || isAdminPageInfoLoading) return <Loading center />;
    if (isGroupsError || isAdminPageInfoError) return <Oops />;
    if (data?.public) return children;

    for (const permission of belongsTo) {
      if (!raw.includes(permission)) return fallback;
    }

    return children;
  };
  \<close>
  The component is a function of its props and of what the two hooks return in the
  current render. \<open>hooks\<close> holds the hooks' results: \<^verbatim>\<open>useGroups\<close> gives the caller's
  groups on the page (\<^verbatim>\<open>raw\<close>) and the state of the \<^verbatim>\<open>users/me\<close> query,
  \<^verbatim>\<open>useAdminPageInfo\<close> gives the page's \<^verbatim>\<open>AdminPageInfo\<close> (\<open>None\<close> while there is none)
  and the state of the \<^verbatim>\<open>admin\<close> query. Of \<^verbatim>\<open>AdminPageInfo\<close> only the field \<^verbatim>\<open>public\<close>
  is read. What is rendered is the loading indicator, the default error page, or one
  of the two elements passed in (\<^verbatim>\<open>fallback\<close> has a default, an error page with its own
  message; here it is an argument like \<^verbatim>\<open>children\<close>).
\<close>

datatype admin_page_info =
  AdminPageInfo (info_public: bool) (info_users: "(string \<times> string list) list")

record hooks =
  raw :: "string list"
  isGroupsLoading :: bool
  isGroupsError :: bool
  data :: "admin_page_info option"
  isAdminPageInfoLoading :: bool
  isAdminPageInfoError :: bool

datatype 'e rendered = Loading_center | Oops | Element 'e

text \<open>
  \<open>optional_public\<close> is \<^verbatim>\<open>data?.public\<close> as a condition: false when there is no data.
  \<open>missing_group\<close> is the loop: whether it reaches a permission that \<^verbatim>\<open>raw\<close> does not
  include.
\<close>

definition optional_public :: "admin_page_info option \<Rightarrow> bool" where
  "optional_public d = (case d of None \<Rightarrow> False | Some info \<Rightarrow> info_public info)"

fun missing_group :: "string list \<Rightarrow> string list \<Rightarrow> bool" where
  "missing_group [] groups_raw = False"
| "missing_group (permission # belongsTo) groups_raw =
     (if permission \<notin> set groups_raw then True else missing_group belongsTo groups_raw)"

definition AssertGroups :: "string list \<Rightarrow> 'e \<Rightarrow> 'e \<Rightarrow> hooks \<Rightarrow> 'e rendered" where
  "AssertGroups belongsTo children fallback h =
     (if isGroupsLoading h \<or> isAdminPageInfoLoading h then Loading_center
      else if isGroupsError h \<or> isAdminPageInfoError h then Oops
      else if optional_public (data h) then Element children
      else if missing_group belongsTo (raw h) then Element fallback
      else Element children)"

section \<open>A consistency condition on the platform\<close>

text \<open>
  On the platform a person's handles identify that person: for every person of the
  pool, \<open>person_of\<close> maps the person's handles back to the person. The record of the
  platform above does not enforce it, so a theorem that depends on which person
  \<^verbatim>\<open>PUT /persons\<close> updates states it as a condition.
\<close>

definition handles_identify_persons :: "platform \<Rightarrow> bool" where
  "handles_identify_persons pf =
     list_all (\<lambda>(person_id, hs). person_of pf hs = Some person_id) (handles pf)"

section \<open>A small deployment\<close>

text \<open>
  A concrete configuration and state on which the theorems below are exercised: the
  root organization \<open>cms\<close> with the page \<open>/docs\<close>, stored as public, and the page
  \<open>/notes\<close>, not stored yet. Alice holds every permission everywhere, Bob may read
  \<open>/docs\<close> and administers \<open>/notes\<close> without any other permission there.
\<close>

definition demo_config :: config where
  "demo_config =
     \<lparr>ROOT_ORG_NAME = ''cms'',
      jwt_sub = (\<lambda>credentials.
        if credentials = ''token-alice'' then Some ''alice''
        else if credentials = ''token-bob'' then Some ''bob''
        else None)\<rparr>"

definition demo_platform :: platform where
  "demo_platform =
     \<lparr>organizations = [(''cms'', ROOT_ORG_ID), (''cms/docs'', ''org-docs''), (''cms/notes'', ''org-notes'')],
      persons = (\<lambda>org. if org = ROOT_ORG_ID then [''alice'', ''bob'']
                        else if org = ''org-docs'' then [''alice'', ''bob'']
                        else if org = ''org-notes'' then [''alice'', ''bob'']
                        else []),
      groups = (\<lambda>org person.
        if person = ''alice'' then [''admin'', ''read'', ''write'']
        else if person = ''bob'' \<and> org = ''org-docs'' then [''read'']
        else if person = ''bob'' \<and> org = ''org-notes'' then [''admin'']
        else []),
      handles = [(''alice'', [PersonHandle EMAIL_ADDRESS ''me@example.com'']),
                 (''bob'', [PersonHandle EMAIL_ADDRESS ''bob@example.com''])],
      person_of = (\<lambda>hs.
        if hs = [PersonHandle EMAIL_ADDRESS ''me@example.com''] then Some ''alice''
        else if hs = [PersonHandle EMAIL_ADDRESS ''bob@example.com''] then Some ''bob''
        else None),
      names = (\<lambda>person. if person = ''alice'' then Some ''Alice'' else None),
      unused_org_ids = [''org-1'', ''org-2'']\<rparr>"

definition demo_state :: state where
  "demo_state =
     \<lparr>pages = [''org-docs'' \<mapsto> \<lparr>public = True, contents = ''#ff0000''\<rparr>],
      platform = demo_platform\<rparr>"

section \<open>Properties of the path resolver\<close>

lemma split_not_Nil: "split sep s \<noteq> []"
  by (induction s) (auto split: list.splits)

lemma split_append_sep: "split sep (a @ sep # b) = split sep a @ split sep b"
proof (induction a)
  case Nil
  show ?case by simp
next
  case (Cons c a)
  obtain w ws where ws: "split sep a = w # ws"
    using split_not_Nil [of sep a] by (cases "split sep a") auto
  with Cons show ?case by simp
qed

text \<open>
  Every segment of a page path is non-empty and has no slash in it.
\<close>

lemma split_no_sep: "w \<in> set (split sep s) \<Longrightarrow> sep \<notin> set w"
proof (induction s arbitrary: w)
  case Nil
  then show ?case by simp
next
  case (Cons c cs)
  obtain x xs where xs: "split sep cs = x # xs"
    using split_not_Nil [of sep cs] by (cases "split sep cs") auto
  show ?case
  proof (cases "c = sep")
    case True
    with Cons show ?thesis by auto
  next
    case False
    with Cons.prems xs have "w = c # x \<or> w \<in> set xs" by simp
    then show ?thesis
    proof
      assume "w = c # x"
      moreover have "sep \<notin> set x" using Cons.IH [of x] xs by simp
      ultimately show ?thesis using False by simp
    next
      assume "w \<in> set xs"
      then show ?thesis using Cons.IH [of w] xs by simp
    qed
  qed
qed

lemma get_page_path_segments:
  "s \<in> set (get_page_path p) \<Longrightarrow> s \<noteq> [] \<and> CHR ''/'' \<notin> set s"
  by (auto simp add: get_page_path_def dest: split_no_sep)

lemma get_page_path_append_sep:
  "get_page_path (a @ CHR ''/'' # b) = get_page_path a @ get_page_path b"
  by (simp add: get_page_path_def split_append_sep)

lemma get_page_path_Nil: "get_page_path [] = []"
  by (simp add: get_page_path_def)

lemma get_page_path_leading: "get_page_path (CHR ''/'' # p) = get_page_path p"
  using get_page_path_append_sep [of "[]" p] by (simp add: get_page_path_Nil)

lemma get_page_path_trailing: "get_page_path (p @ ''/'') = get_page_path p"
  using get_page_path_append_sep [of p "[]"] by (simp add: get_page_path_Nil)

lemma get_page_path_repeated:
  "get_page_path (a @ ''//'' @ b) = get_page_path (a @ ''/'' @ b)"
proof -
  have "get_page_path (a @ CHR ''/'' # CHR ''/'' # b) = get_page_path a @ get_page_path (CHR ''/'' # b)"
    by (rule get_page_path_append_sep)
  also have "\<dots> = get_page_path a @ get_page_path b"
    by (simp add: get_page_path_leading)
  also have "\<dots> = get_page_path (a @ CHR ''/'' # b)"
    by (simp add: get_page_path_append_sep)
  finally show ?thesis by simp
qed

lemma join_Cons_Cons: "join sep ((c # w) # ws) = c # join sep (w # ws)"
  by (cases ws) simp_all

lemma join_split: "join [sep] (split sep p) = p"
proof (induction p)
  case Nil
  show ?case by simp
next
  case (Cons c cs)
  obtain w ws where ws: "split sep cs = w # ws"
    using split_not_Nil [of sep cs] by (cases "split sep cs") auto
  show ?case
  proof (cases "c = sep")
    case True
    with Cons ws show ?thesis by simp
  next
    case False
    with Cons ws show ?thesis by (simp add: join_Cons_Cons)
  qed
qed

lemma slash_variant_after_slash:
  "slash_variant q q' \<Longrightarrow> slash_variant (a @ ''/'' @ q) (a @ ''/'' @ q')"
proof (induction rule: slash_variant.induct)
  case (same p)
  show ?case by (rule slash_variant.same)
next
  case (leading p)
  show ?case using slash_variant.repeated [of a p] by simp
next
  case (trailing p)
  show ?case using slash_variant.trailing [of "a @ ''/'' @ p"] by simp
next
  case (repeated b c)
  show ?case using slash_variant.repeated [of "a @ ''/'' @ b" c] by simp
next
  case (sym p q)
  then show ?case by (blast intro: slash_variant.sym)
next
  case (trans p q r)
  then show ?case by (blast intro: slash_variant.trans)
qed

lemma slash_variant_join_filter:
  "slash_variant (join ''/'' segs) (join ''/'' (filter (\<lambda>x. x \<noteq> []) segs))"
proof (induction segs)
  case Nil
  show ?case by (simp add: slash_variant.same)
next
  case (Cons x rest)
  let ?J = "join ''/'' (filter (\<lambda>x. x \<noteq> []) rest)"
  show ?case
  proof (cases rest)
    case Nil
    then show ?thesis by (simp add: slash_variant.same)
  next
    case (Cons y ys)
    have "slash_variant (x @ ''/'' @ join ''/'' rest) (x @ ''/'' @ ?J)"
      by (rule slash_variant_after_slash) (rule Cons.IH)
    then have step: "slash_variant (join ''/'' (x # rest)) (x @ ''/'' @ ?J)"
      using Cons by simp
    show ?thesis
    proof (cases "x = []")
      case True
      have "slash_variant (''/'' @ ?J) ?J"
        using slash_variant.leading [of ?J] by (simp add: slash_variant.sym)
      with step True have "slash_variant (join ''/'' (x # rest)) ?J"
        by (auto intro: slash_variant.trans)
      with True show ?thesis by simp
    next
      case False
      show ?thesis
      proof (cases "filter (\<lambda>x. x \<noteq> []) rest")
        case Nil
        have "slash_variant (x @ ''/'') x"
          using slash_variant.trailing [of x] by (simp add: slash_variant.sym)
        with step Nil have "slash_variant (join ''/'' (x # rest)) x"
          by (auto intro: slash_variant.trans)
        with False Nil show ?thesis by simp
      next
        case (Cons z zs)
        with step False show ?thesis by simp
      qed
    qed
  qed
qed

lemma slash_variant_canonical: "slash_variant p (join ''/'' (get_page_path p))"
  using slash_variant_join_filter [of "split CHR ''/'' p"]
  by (simp add: get_page_path_def join_split)

lemma slash_variant_complete:
  assumes "get_page_path p = get_page_path q"
  shows "slash_variant p q"
proof -
  have "slash_variant p (join ''/'' (get_page_path q))"
    using slash_variant_canonical [of p] assms by simp
  moreover have "slash_variant (join ''/'' (get_page_path q)) q"
    by (rule slash_variant.sym) (rule slash_variant_canonical)
  ultimately show ?thesis by (rule slash_variant.trans)
qed


lemma slash_variant_example: "slash_variant ''foo/bar'' ''//foo//bar//''"
proof -
  have 1: "slash_variant ''foo/bar'' ''/foo/bar''" by (rule slash_variant.leading)
  have 2: "slash_variant ''/foo/bar'' ''//foo/bar''" by (rule slash_variant.leading)
  have 3: "slash_variant ''//foo/bar'' ''//foo//bar''"
    using slash_variant.repeated [of "''//foo''" "''bar''"] by simp
  have 4: "slash_variant ''//foo//bar'' ''//foo//bar/''"
    using slash_variant.trailing [of "''//foo//bar''"] by simp
  have 5: "slash_variant ''//foo//bar/'' ''//foo//bar//''"
    using slash_variant.trailing [of "''//foo//bar/''"] by simp
  from 1 2 3 4 5 show ?thesis by (blast intro: slash_variant.trans)
qed

text \<open>
  C6. Two raw paths that differ only in empty segments (leading, trailing or repeated
  slashes) resolve to the same page path, and only such paths do; \<open>get_page_path\<close> is
  a total function with no failing branch, and the empty path and the root path
  \<open>/\<close> both resolve to the empty list of segments.
\<close>

theorem get_page_path_slash_variant:
  "(slash_variant p q \<longrightarrow> get_page_path p = get_page_path q) \<and>
   (get_page_path p = get_page_path q \<longrightarrow> slash_variant p q) \<and>
   get_page_path [] = [] \<and> get_page_path ''/'' = []"
proof -
  have "get_page_path p = get_page_path q" if "slash_variant p q"
    using that
  proof (induction rule: slash_variant.induct)
    case (leading p)
    show ?case by (simp add: get_page_path_leading)
  next
    case (trailing p)
    show ?case by (simp add: get_page_path_trailing)
  next
    case (repeated a b)
    show ?case by (simp only: get_page_path_repeated)
  qed simp_all
  moreover have "get_page_path ''/'' = []"
    by (simp add: get_page_path_def)
  ultimately show ?thesis
    by (simp add: get_page_path_Nil slash_variant_complete)
qed

theorem get_page_path_slash_variant_witness:
  "slash_variant ''foo/bar'' ''//foo//bar//'' \<and>
   get_page_path ''//foo//bar//'' = [''foo'', ''bar''] \<and>
   get_page_path ''foo/bar'' = [''foo'', ''bar'']"
proof -
  have v: "slash_variant ''foo/bar'' ''//foo//bar//''"
    by (rule slash_variant_example)
  have c: "get_page_path ''foo/bar'' = [''foo'', ''bar'']"
    by (simp add: get_page_path_def)
  from v c get_page_path_slash_variant [of "''foo/bar''" "''//foo//bar//''"]
  show ?thesis by simp
qed

text \<open>
  C7, as the specification states it, fails for the root page: the code joins the root
  name and the segments with slashes, so the key of the empty path is the root name
  itself, without the slash that \<^verbatim>\<open>rootName + "/" + join(segments, "/")\<close> would append.
\<close>

theorem org_name_root_counterexample:
  "org_name ''cms'' [] \<noteq> toOrganizationKey_spec [] ''cms''"
  by (simp add: org_name_def toOrganizationKey_spec_def)

text \<open>
  C7, amended. The organization key of a page is
  \<^verbatim>\<open>join([rootName] + segments, "/")\<close>: the root name alone for the root page, and
  \<^verbatim>\<open>rootName + "/" + join(segments, "/")\<close> for every other page. It is a function of the
  root name and the segments only.
\<close>

theorem org_name_key:
  "org_name rootName segments =
     (if segments = [] then rootName else toOrganizationKey_spec segments rootName)"
  by (cases segments) (simp_all add: org_name_def toOrganizationKey_spec_def)

section \<open>Properties of the permission checks\<close>

lemma missing_iff: "missing ps S = (\<not> set ps \<subseteq> S)"
  by (induction ps) auto

lemma require_permissions_known:
  assumes "get_permissions pf (Some u) (Some page_id) = Inr S"
  shows "require_permissions ps pf (Some u) (Some page_id) =
           (if set ps \<subseteq> S then Inr S
            else Inl (HTTPException HTTP_403_FORBIDDEN (Missing_permissions (set ps) S)))"
  using assms by (simp add: require_permissions_def missing_iff)

lemma depends_require_permissions_known:
  assumes "get_user_id cfg token = Inr (Some u)"
    and "get_page_id cfg (platform st) (get_page_path raw_path) = Some page_id"
  shows "depends_require_permissions ps cfg st token raw_path =
           require_permissions ps (platform st) (Some u) (Some page_id)"
  using assms by (simp add: depends_require_permissions_def require_user_id_def require_page_id_def)

lemma depends_require_permissions_no_token:
  "depends_require_permissions ps cfg st None raw_path =
     Inl (HTTPException HTTP_401_UNAUTHORIZED (Detail ''Requires user credentials''))"
  by (simp add: depends_require_permissions_def get_user_id_def require_user_id_def)

lemma put_page_Inr: "fst (put_page st page_id body) = Inr ()"
  by (simp add: put_page_def split: prod.splits)

lemma put_page_route_known:
  assumes "get_user_id cfg token = Inr (Some u)"
    and "get_page_id cfg (platform st) (get_page_path raw_path) = Some page_id"
    and "get_permissions (platform st) (Some u) (Some page_id) = Inr S"
  shows "put_page_route cfg st token raw_path body =
           (if Write \<in> S then put_page st page_id body
            else (Inl (HTTPException HTTP_403_FORBIDDEN (Missing_permissions {Write} S)), st))"
  using assms
  by (simp add: put_page_route_def depends_require_permissions_known
      require_permissions_known require_page_id_def)

lemma get_page_route_known:
  assumes "get_user_id cfg token = Inr person_id"
    and "get_page_id cfg (platform st) (get_page_path raw_path) = Some page_id"
  shows "get_page_route cfg st token raw_path = get_page st person_id page_id"
  using assms by (simp add: get_page_route_def require_page_id_def)

lemma get_page_stored_public:
  assumes "pages st page_id = Some p" and "public p"
  shows "get_page st person_id page_id = (Inr (contents p), st)"
  using assms by (simp add: get_page_def pages_getitem_def)

lemma get_page_public:
  assumes "public (fst (pages_getitem (pages st) page_id))"
  shows "fst (get_page st person_id page_id) =
           Inr (contents (fst (pages_getitem (pages st) page_id)))"
  using assms by (cases "pages_getitem (pages st) page_id") (simp add: get_page_def)

lemma get_page_no_user:
  assumes "\<not> public (fst (pages_getitem (pages st) page_id))"
  shows "fst (get_page st None page_id) =
           Inl (HTTPException HTTP_401_UNAUTHORIZED (Detail ''Requires user credentials''))"
  using assms
  by (cases "pages_getitem (pages st) page_id") (simp add: get_page_def require_permissions_def)

lemma get_page_known:
  assumes "get_permissions (platform st) (Some u) (Some page_id) = Inr S"
    and "\<not> public (fst (pages_getitem (pages st) page_id))"
  shows "fst (get_page st (Some u) page_id) =
           (if Read \<in> S then Inr (contents (fst (pages_getitem (pages st) page_id)))
            else Inl (HTTPException HTTP_403_FORBIDDEN (Missing_permissions {Read} S)))"
  using assms
  by (cases "pages_getitem (pages st) page_id") (simp add: get_page_def require_permissions_known)

lemma delete_page_route_cases:
  "delete_page_route cfg st token raw_path =
     (case depends_require_permissions [Admin] cfg st token raw_path of
        Inl e \<Rightarrow> (Inl e, st)
      | Inr actual \<Rightarrow>
          (Inl (HTTPException HTTP_501_NOT_IMPLEMENTED
                  (Detail ''Suborg removal not implemented by SlashID API'')), st))"
  by (auto simp add: delete_page_route_def delete_page_def depends_require_permissions_def
      require_page_id_def split: sum.splits option.splits)

subsection \<open>Facts about the small deployment\<close>

lemma demo_user_bob: "get_user_id demo_config (Some ''token-bob'') = Inr (Some ''bob'')"
  by (simp add: get_user_id_def demo_config_def)

lemma demo_user_alice: "get_user_id demo_config (Some ''token-alice'') = Inr (Some ''alice'')"
  by (simp add: get_user_id_def demo_config_def)

lemma demo_page_docs:
  "get_page_id demo_config (platform demo_state) (get_page_path ''/docs/'') = Some ''org-docs''"
  by (simp add: get_page_id_def get_org_id_def get_page_path_def org_name_def
      demo_config_def demo_state_def demo_platform_def)

lemma demo_page_notes:
  "get_page_id demo_config (platform demo_state) (get_page_path ''/notes'') = Some ''org-notes''"
  by (simp add: get_page_id_def get_org_id_def get_page_path_def org_name_def
      demo_config_def demo_state_def demo_platform_def)

lemma demo_parent_docs:
  "get_page_id demo_config (platform demo_state) (butlast [''docs'', ''new'']) = Some ''org-docs''"
  by (simp add: get_page_id_def get_org_id_def org_name_def
      demo_config_def demo_state_def demo_platform_def)

lemma demo_parent_notes:
  "get_page_id demo_config (platform demo_state) (butlast [''notes'', ''new'']) = Some ''org-notes''"
  by (simp add: get_page_id_def get_org_id_def org_name_def
      demo_config_def demo_state_def demo_platform_def)

lemma demo_permissions_bob_docs:
  "get_permissions (platform demo_state) (Some ''bob'') (Some ''org-docs'') = Inr {Read}"
  by (simp add: get_permissions_def persons_person_id_groups_get_def Permission_def
      demo_state_def demo_platform_def)

lemma demo_permissions_bob_notes:
  "get_permissions (platform demo_state) (Some ''bob'') (Some ''org-notes'') = Inr {Admin}"
  by (simp add: get_permissions_def persons_person_id_groups_get_def Permission_def
      demo_state_def demo_platform_def)

lemma demo_permissions_alice_docs:
  "get_permissions (platform demo_state) (Some ''alice'') (Some ''org-docs'') =
     Inr {Admin, Read, Write}"
  by (simp add: get_permissions_def persons_person_id_groups_get_def Permission_def
      demo_state_def demo_platform_def)

lemma demo_alice_admin_docs:
  "depends_require_permissions [Admin] demo_config demo_state (Some ''token-alice'') ''/docs/'' =
     Inr {Admin, Read, Write}"
  by (simp add: depends_require_permissions_known [OF demo_user_alice demo_page_docs]
      require_permissions_known [OF demo_permissions_alice_docs])

lemma demo_docs_stored:
  "pages demo_state ''org-docs'' = Some \<lparr>public = True, contents = ''#ff0000''\<rparr>"
  by (simp add: demo_state_def)

lemma demo_notes_not_stored: "pages demo_state ''org-notes'' = None"
  by (simp add: demo_state_def)

lemma demo_notes_not_public: "\<not> public (fst (pages_getitem (pages demo_state) ''org-notes''))"
  by (simp add: pages_getitem_def demo_notes_not_stored default_page_def)

lemma demo_identify: "handles_identify_persons (platform demo_state)"
  by (simp add: handles_identify_persons_def demo_state_def demo_platform_def)

lemma demo_docs_not_root: "''org-docs'' \<noteq> ROOT_ORG_ID"
  by (simp add: ROOT_ORG_ID_def)

lemma demo_bob_member_docs: "''bob'' \<in> set (persons (platform demo_state) ''org-docs'')"
  by (simp add: demo_state_def demo_platform_def ROOT_ORG_ID_def)

lemma demo_bob_member_root: "''bob'' \<in> set (persons (platform demo_state) ROOT_ORG_ID)"
  by (simp add: demo_state_def demo_platform_def)

lemma demo_alice_member_root: "''alice'' \<in> set (persons (platform demo_state) ROOT_ORG_ID)"
  by (simp add: demo_state_def demo_platform_def)

lemma demo_alice_known: "map_of (handles (platform demo_state)) ''alice'' \<noteq> None"
  by (simp add: demo_state_def demo_platform_def)

lemma demo_alice_groups_root:
  "groups (platform demo_state) ROOT_ORG_ID ''alice'' = [''admin'', ''read'', ''write'']"
  by (simp add: demo_state_def demo_platform_def)

lemma demo_patch_root_reports:
  "fst (patch_page_settings demo_state ROOT_ORG_ID
          (PageSettingsPatch None
             (Some [UserPermissionsPatch ''carol'' (Some {Read}),
                    UserPermissionsPatch ''alice'' (Some {})]))) =
     Inl (ApiException HTTP_404_NOT_FOUND)"
  by code_simp

lemma demo_post_docs_new:
  "fst (post_page demo_config demo_state ''alice'' [''docs'', ''new''] None ''#123456'') = Inr ()"
  by code_simp

lemma demo_post_notes_new:
  "fst (post_page demo_config demo_state ''bob'' [''notes'', ''new''] None ''#654321'') = Inr ()"
  by code_simp

subsection \<open>Reading and writing pages\<close>

text \<open>
  C1. A page stored with \<open>public = True\<close> is served to every caller: \<open>get_page\<close>
  returns its contents whoever the caller is (also no caller at all) and whatever the
  platform says of the caller's groups, and so does the route for every request whose
  token is not rejected. Writing the same page is allowed exactly when \<open>Write\<close> is
  among the caller's permissions: without it the route answers 403 and changes
  nothing. The public flag opens reading only.
\<close>

theorem public_page_read_write:
  assumes "pages st page_id = Some p" and "public p"
  shows "get_page st person_id page_id = (Inr (contents p), st) \<and>
         (get_user_id cfg token = Inr person_id \<and>
          get_page_id cfg (platform st) (get_page_path raw_path) = Some page_id \<longrightarrow>
            get_page_route cfg st token raw_path = (Inr (contents p), st)) \<and>
         (get_user_id cfg token = Inr (Some u) \<and>
          get_page_id cfg (platform st) (get_page_path raw_path) = Some page_id \<and>
          get_permissions (platform st) (Some u) (Some page_id) = Inr S \<longrightarrow>
            (fst (put_page_route cfg st token raw_path body) = Inr ()) = (Write \<in> S) \<and>
            (Write \<notin> S \<longrightarrow>
               put_page_route cfg st token raw_path body =
                 (Inl (HTTPException HTTP_403_FORBIDDEN (Missing_permissions {Write} S)), st)))"
  using assms
  by (simp add: get_page_stored_public get_page_route_known put_page_route_known put_page_Inr)

text \<open>
  On the small deployment: the public page \<open>/docs\<close> is read without a caller, and Bob,
  whose permissions there are \<open>{Read}\<close>, is refused a write.
\<close>

theorem public_page_read_write_witness:
  "get_page demo_state None ''org-docs'' = (Inr ''#ff0000'', demo_state) \<and>
   put_page_route demo_config demo_state (Some ''token-bob'') ''/docs/'' ''#000000'' =
     (Inl (HTTPException HTTP_403_FORBIDDEN (Missing_permissions {Write} {Read})), demo_state)"
  using public_page_read_write [OF demo_docs_stored, of None demo_config "Some ''token-bob''"
      "''/docs/''" "''bob''" "{Read}" "''#000000''"]
    demo_user_bob demo_page_docs demo_permissions_bob_docs
  by simp

text \<open>
  C2. For a page that is not public and a caller whose permissions on it are \<open>S\<close>:
  the check for a required permission \<open>p\<close> passes exactly when \<open>p \<in> S\<close>, and answers
  403 otherwise; reading passes exactly when \<open>Read \<in> S\<close> and writing exactly when
  \<open>Write \<in> S\<close>, each answering 403 otherwise. No permission stands for another.
\<close>

theorem private_page_membership:
  assumes "get_permissions (platform st) (Some u) (Some page_id) = Inr S"
    and "\<not> public (fst (pages_getitem (pages st) page_id))"
  shows "((\<exists>r. require_permissions [p] (platform st) (Some u) (Some page_id) = Inr r) = (p \<in> S)) \<and>
         (p \<notin> S \<longrightarrow>
            require_permissions [p] (platform st) (Some u) (Some page_id) =
              Inl (HTTPException HTTP_403_FORBIDDEN (Missing_permissions {p} S))) \<and>
         ((\<exists>c. fst (get_page st (Some u) page_id) = Inr c) = (Read \<in> S)) \<and>
         (Read \<notin> S \<longrightarrow>
            fst (get_page st (Some u) page_id) =
              Inl (HTTPException HTTP_403_FORBIDDEN (Missing_permissions {Read} S))) \<and>
         (get_user_id cfg token = Inr (Some u) \<and>
          get_page_id cfg (platform st) (get_page_path raw_path) = Some page_id \<longrightarrow>
            (fst (put_page_route cfg st token raw_path body) = Inr ()) = (Write \<in> S) \<and>
            (Write \<notin> S \<longrightarrow>
               put_page_route cfg st token raw_path body =
                 (Inl (HTTPException HTTP_403_FORBIDDEN (Missing_permissions {Write} S)), st)))"
  using assms
  by (simp add: require_permissions_known get_page_known put_page_route_known put_page_Inr)

text \<open>
  On the small deployment: Bob holds \<open>Admin\<close> alone on the page \<open>/notes\<close>, which is not
  public. The check for \<open>Admin\<close> passes; the check for \<open>Write\<close> answers 403, and he
  can neither read nor write the page.
\<close>

theorem private_page_membership_witness:
  "get_permissions (platform demo_state) (Some ''bob'') (Some ''org-notes'') = Inr {Admin} \<and>
   require_permissions [Write] (platform demo_state) (Some ''bob'') (Some ''org-notes'') =
     Inl (HTTPException HTTP_403_FORBIDDEN (Missing_permissions {Write} {Admin})) \<and>
   (\<exists>r. require_permissions [Admin] (platform demo_state) (Some ''bob'') (Some ''org-notes'') = Inr r) \<and>
   \<not> (\<exists>c. fst (get_page demo_state (Some ''bob'') ''org-notes'') = Inr c) \<and>
   fst (put_page_route demo_config demo_state (Some ''token-bob'') ''/notes'' ''#000000'') \<noteq> Inr ()"
  using private_page_membership [OF demo_permissions_bob_notes demo_notes_not_public,
      of Write demo_config "Some ''token-bob''" "''/notes''" "''#000000''"]
    private_page_membership [OF demo_permissions_bob_notes demo_notes_not_public,
      of Admin demo_config "Some ''token-bob''" "''/notes''" "''#000000''"]
    demo_user_bob demo_page_notes demo_permissions_bob_notes
  by simp

section \<open>Properties of the administration handlers\<close>

lemma persons_put_fields:
  assumes "persons_put pf org hs gs = Inr pf'"
  shows "handles pf' = handles pf \<and> person_of pf' = person_of pf \<and>
         organizations pf' = organizations pf"
  using assms by (auto simp add: persons_put_def split: option.splits)

lemma persons_person_id_delete_fields:
  assumes "persons_person_id_delete pf v org = Inr pf'"
  shows "handles pf' = handles pf \<and> person_of pf' = person_of pf \<and>
         organizations pf' = organizations pf"
  using assms by (auto simp add: persons_person_id_delete_def split: if_splits)

lemma set_user_permissions_fields:
  assumes "set_user_permissions pf v page_id ps = Inr pf'"
  shows "handles pf' = handles pf \<and> person_of pf' = person_of pf \<and>
         organizations pf' = organizations pf"
  using assms
  by (auto simp add: set_user_permissions_def
      dest: persons_put_fields persons_person_id_delete_fields
      split: if_splits sum.splits option.splits)

lemma handles_identify_personsD:
  assumes "handles_identify_persons pf" and "map_of (handles pf) v = Some hs"
  shows "person_of pf hs = Some v"
proof -
  from assms(2) have "(v, hs) \<in> set (handles pf)"
    by (rule map_of_SomeD)
  with assms(1) show ?thesis
    by (auto simp add: handles_identify_persons_def list_all_iff)
qed

lemma persons_person_id_handles_get_Some:
  assumes "persons_person_id_handles_get pf v org = Inr (Some hs)"
  shows "map_of (handles pf) v = Some hs"
  using assms by (auto simp add: persons_person_id_handles_get_def split: if_splits)

lemma persons_put_other:
  assumes "persons_put pf org hs gs = Inr pf'" and "person_of pf hs = Some v" and "v \<noteq> u"
  shows "(u \<in> set (persons pf' org)) = (u \<in> set (persons pf org)) \<and>
         groups pf' org u = groups pf org u"
  using assms by (auto simp add: persons_put_def split: if_splits)

lemma persons_put_self:
  assumes "persons_put pf org hs gs = Inr pf'" and "person_of pf hs = Some u"
  shows "u \<in> set (persons pf' org) \<and> groups pf' org u = gs"
  using assms by (auto simp add: persons_put_def)

lemma persons_put_subset:
  assumes "persons_put pf org hs gs = Inr pf'"
  shows "set (persons pf org) \<subseteq> set (persons pf' org)"
  using assms by (auto simp add: persons_put_def split: option.splits if_splits)

text \<open>
  The two halves of an update are \<^verbatim>\<open>set_user_permissions\<close> cut at its second request.
\<close>

lemma set_user_permissions_start_finish:
  "set_user_permissions pf user_id page_id ps =
     (case set_user_permissions_start pf user_id page_id ps of
        (s, pf1) \<Rightarrow> set_user_permissions_finish pf1 page_id s)"
  by (simp add: set_user_permissions_def set_user_permissions_start_def
      set_user_permissions_finish_def split: sum.splits option.splits)

lemma set_user_permissions_start_fields:
  assumes "set_user_permissions_start pf v page_id ps = (s, pf1)"
  shows "handles pf1 = handles pf \<and> person_of pf1 = person_of pf \<and>
         set (persons pf1 org) \<subseteq> set (persons pf org)"
  using assms
  by (auto simp add: set_user_permissions_start_def persons_person_id_delete_def
      split: if_splits sum.splits)

lemma set_user_permissions_start_root:
  assumes "set_user_permissions_start pf v ROOT_ORG_ID ps = (s, pf1)"
  shows "pf1 = pf"
  using assms by (auto simp add: set_user_permissions_start_def split: sum.splits)

lemma set_user_permissions_start_remove:
  assumes "page_id \<noteq> ROOT_ORG_ID"
  shows "u \<notin> set (persons (snd (set_user_permissions_start pf u page_id {})) page_id)"
  using assms by (simp add: set_user_permissions_start_def persons_person_id_delete_def)

lemma set_user_permissions_start_Got_handles:
  assumes "set_user_permissions_start pf v page_id ps = (Got_handles (Some hs) qs, pf1)"
  shows "qs = ps \<and> map_of (handles pf) v = Some hs \<and> v \<in> set (persons pf ROOT_ORG_ID) \<and>
         \<not> (page_id \<noteq> ROOT_ORG_ID \<and> ps = {})"
  using assms
  by (auto simp add: set_user_permissions_start_def persons_person_id_handles_get_def
      split: if_splits sum.splits)

lemma set_user_permissions_start_known:
  assumes "v \<in> set (persons pf ROOT_ORG_ID)" and "map_of (handles pf) v = Some hs"
  shows "set_user_permissions_start pf v ROOT_ORG_ID ps = (Got_handles (Some hs) ps, pf)"
  using assms
  by (simp add: set_user_permissions_start_def persons_person_id_handles_get_def)

lemma start_all_fields:
  "handles (snd (start_all pf page_id xs)) = handles pf \<and>
   person_of (snd (start_all pf page_id xs)) = person_of pf \<and>
   set (persons (snd (start_all pf page_id xs)) org) \<subseteq> set (persons pf org)"
proof (induction xs arbitrary: pf)
  case Nil
  show ?case by simp
next
  case (Cons x xs)
  obtain v ps where x: "x = (v, ps)" by (cases x)
  obtain s pf1 where s: "set_user_permissions_start pf v page_id ps = (s, pf1)"
    by (cases "set_user_permissions_start pf v page_id ps")
  from set_user_permissions_start_fields [OF s, of org] Cons.IH [of pf1] x s
  show ?case by (auto split: prod.splits)
qed

lemma start_all_root: "snd (start_all pf ROOT_ORG_ID xs) = pf"
proof (induction xs)
  case Nil
  show ?case by simp
next
  case (Cons x xs)
  obtain v ps where x: "x = (v, ps)" by (cases x)
  obtain s pf1 where s: "set_user_permissions_start pf v ROOT_ORG_ID ps = (s, pf1)"
    by (cases "set_user_permissions_start pf v ROOT_ORG_ID ps")
  from set_user_permissions_start_root [OF s] Cons x s
  show ?case by (auto split: prod.splits)
qed

lemma start_all_removes:
  assumes "page_id \<noteq> ROOT_ORG_ID" and "(u, {}) \<in> set xs"
  shows "u \<notin> set (persons (snd (start_all pf page_id xs)) page_id)"
  using assms(2)
proof (induction xs arbitrary: pf)
  case Nil
  then show ?case by simp
next
  case (Cons x xs)
  obtain v ps where x: "x = (v, ps)" by (cases x)
  obtain s pf1 where s: "set_user_permissions_start pf v page_id ps = (s, pf1)"
    by (cases "set_user_permissions_start pf v page_id ps")
  have rest: "snd (start_all pf page_id (x # xs)) = snd (start_all pf1 page_id xs)"
    using x s by (simp split: prod.splits)
  show ?case
  proof (cases "x = (u, {})")
    case True
    with x s set_user_permissions_start_remove [OF assms(1), of u pf]
    have "u \<notin> set (persons pf1 page_id)" by simp
    with start_all_fields [of pf1 page_id xs page_id] rest show ?thesis by auto
  next
    case False
    with Cons.prems have "(u, {}) \<in> set xs" by simp
    with Cons.IH [of pf1] rest show ?thesis by simp
  qed
qed

lemma start_all_Got_handles:
  assumes "Got_handles (Some hs) qs \<in> set (fst (start_all pf page_id xs))"
  shows "\<exists>v. (v, qs) \<in> set xs \<and> map_of (handles pf) v = Some hs \<and>
              \<not> (page_id \<noteq> ROOT_ORG_ID \<and> qs = {})"
  using assms
proof (induction xs arbitrary: pf)
  case Nil
  then show ?case by simp
next
  case (Cons x xs)
  obtain v ps where x: "x = (v, ps)" by (cases x)
  obtain s pf1 where s: "set_user_permissions_start pf v page_id ps = (s, pf1)"
    by (cases "set_user_permissions_start pf v page_id ps")
  from Cons.prems x s
  have "Got_handles (Some hs) qs = s \<or> Got_handles (Some hs) qs \<in> set (fst (start_all pf1 page_id xs))"
    by (auto split: prod.splits)
  then show ?case
  proof
    assume "Got_handles (Some hs) qs = s"
    with s set_user_permissions_start_Got_handles [of pf v page_id ps hs qs pf1] x
    show ?thesis by auto
  next
    assume "Got_handles (Some hs) qs \<in> set (fst (start_all pf1 page_id xs))"
    from Cons.IH [OF this] set_user_permissions_start_fields [OF s, of page_id]
    show ?thesis by auto
  qed
qed

lemma start_all_root_known:
  assumes "(u, ps) \<in> set xs" and "u \<in> set (persons pf ROOT_ORG_ID)"
    and "map_of (handles pf) u = Some hs"
  shows "Got_handles (Some hs) ps \<in> set (fst (start_all pf ROOT_ORG_ID xs))"
  using assms(1)
proof (induction xs)
  case Nil
  then show ?case by simp
next
  case (Cons x xs)
  obtain v qs where x: "x = (v, qs)" by (cases x)
  obtain s pf1 where s: "set_user_permissions_start pf v ROOT_ORG_ID qs = (s, pf1)"
    by (cases "set_user_permissions_start pf v ROOT_ORG_ID qs")
  have pf1: "pf1 = pf" using s by (rule set_user_permissions_start_root)
  show ?case
  proof (cases "x = (u, ps)")
    case True
    with x s set_user_permissions_start_known [OF assms(2) assms(3), of ps]
    show ?thesis by (auto split: prod.splits)
  next
    case False
    with Cons have "Got_handles (Some hs) ps \<in> set (fst (start_all pf ROOT_ORG_ID xs))" by simp
    with x s pf1 show ?thesis by (auto split: prod.splits)
  qed
qed

lemma start_all_root_entry:
  assumes "(u, ps) \<in> set xs"
  shows "fst (set_user_permissions_start pf u ROOT_ORG_ID ps) \<in> set (fst (start_all pf ROOT_ORG_ID xs))"
  using assms
proof (induction xs)
  case Nil
  then show ?case by simp
next
  case (Cons x xs)
  obtain v qs where x: "x = (v, qs)" by (cases x)
  obtain s pf1 where s: "set_user_permissions_start pf v ROOT_ORG_ID qs = (s, pf1)"
    by (cases "set_user_permissions_start pf v ROOT_ORG_ID qs")
  have pf1: "pf1 = pf" using s by (rule set_user_permissions_start_root)
  show ?case
  proof (cases "x = (u, ps)")
    case True
    with x s show ?thesis by (auto split: prod.splits)
  next
    case False
    with Cons have "fst (set_user_permissions_start pf u ROOT_ORG_ID ps)
        \<in> set (fst (start_all pf ROOT_ORG_ID xs))" by simp
    with x s pf1 show ?thesis by (auto split: prod.splits)
  qed
qed

lemma set_user_permissions_finish_fields:
  assumes "set_user_permissions_finish pf page_id s = Inr pf1"
  shows "handles pf1 = handles pf \<and> person_of pf1 = person_of pf \<and>
         set (persons pf page_id) \<subseteq> set (persons pf1 page_id)"
  using assms
  by (auto simp add: set_user_permissions_finish_def
      dest: persons_put_fields persons_put_subset split: suspended.splits option.splits)

lemma set_user_permissions_finish_other:
  assumes "set_user_permissions_finish pf page_id s = Inr pf1"
    and "\<forall>hs ps. s = Got_handles (Some hs) ps \<longrightarrow> person_of pf hs \<noteq> Some u"
  shows "(u \<in> set (persons pf1 page_id)) = (u \<in> set (persons pf page_id)) \<and>
         groups pf1 page_id u = groups pf page_id u"
proof (cases s)
  case Returned
  with assms(1) show ?thesis by (simp add: set_user_permissions_finish_def)
next
  case (Raised e)
  with assms(1) show ?thesis by (simp add: set_user_permissions_finish_def)
next
  case (Got_handles h ps)
  with assms(1) obtain hs where h: "h = Some hs"
    and put: "persons_put pf page_id hs (permission_values ps) = Inr pf1"
    by (cases h) (simp_all add: set_user_permissions_finish_def)
  from put obtain v where v: "person_of pf hs = Some v"
    by (auto simp add: persons_put_def split: option.splits)
  with assms(2) Got_handles h have "v \<noteq> u" by auto
  with put v show ?thesis by (rule persons_put_other)
qed

lemma set_user_permissions_finish_self:
  assumes "set_user_permissions_finish pf page_id (Got_handles (Some hs) {}) = r"
    and "person_of pf hs = Some u"
  shows "\<exists>pf1. r = Inr pf1 \<and> u \<in> set (persons pf1 page_id) \<and> groups pf1 page_id u = []"
  using assms
  by (auto simp add: set_user_permissions_finish_def persons_put_def permission_values_def)

lemma finish_all_keeps_out:
  assumes "\<forall>hs ps. Got_handles (Some hs) ps \<in> set ss \<longrightarrow> person_of pf hs \<noteq> Some u"
    and "u \<notin> set (persons pf page_id)"
  shows "u \<notin> set (persons (snd (finish_all pf page_id ss)) page_id)"
  using assms
proof (induction ss arbitrary: pf)
  case Nil
  then show ?case by simp
next
  case (Cons s ss)
  from Cons.prems(1)
  have rest: "\<forall>hs ps. Got_handles (Some hs) ps \<in> set ss \<longrightarrow> person_of pf hs \<noteq> Some u"
    by auto
  show ?case
  proof (cases "set_user_permissions_finish pf page_id s")
    case (Inl e)
    with Cons.IH [OF rest Cons.prems(2)] show ?thesis by simp
  next
    case (Inr pf1)
    from Cons.prems(1)
    have "\<forall>hs ps. s = Got_handles (Some hs) ps \<longrightarrow> person_of pf hs \<noteq> Some u" by auto
    from set_user_permissions_finish_other [OF Inr this] Cons.prems(2)
    have out: "u \<notin> set (persons pf1 page_id)" by simp
    from set_user_permissions_finish_fields [OF Inr] rest
    have "\<forall>hs ps. Got_handles (Some hs) ps \<in> set ss \<longrightarrow> person_of pf1 hs \<noteq> Some u" by simp
    from Cons.IH [OF this out] Inr show ?thesis by simp
  qed
qed

lemma finish_all_keeps_member:
  assumes "u \<in> set (persons pf page_id)"
  shows "u \<in> set (persons (snd (finish_all pf page_id ss)) page_id)"
  using assms
proof (induction ss arbitrary: pf)
  case Nil
  then show ?case by simp
next
  case (Cons s ss)
  show ?case
  proof (cases "set_user_permissions_finish pf page_id s")
    case (Inl e)
    with Cons show ?thesis by simp
  next
    case (Inr pf1)
    with Cons.prems set_user_permissions_finish_fields [OF Inr]
    have "u \<in> set (persons pf1 page_id)" by auto
    with Cons.IH Inr show ?thesis by simp
  qed
qed

lemma finish_all_keeps_zero_groups:
  assumes "\<forall>hs ps. Got_handles (Some hs) ps \<in> set ss \<and> person_of pf hs = Some u \<longrightarrow> ps = {}"
    and "u \<in> set (persons pf page_id) \<and> groups pf page_id u = []"
  shows "u \<in> set (persons (snd (finish_all pf page_id ss)) page_id) \<and>
         groups (snd (finish_all pf page_id ss)) page_id u = []"
  using assms
proof (induction ss arbitrary: pf)
  case Nil
  then show ?case by simp
next
  case (Cons s ss)
  from Cons.prems(1)
  have rest: "\<forall>hs ps. Got_handles (Some hs) ps \<in> set ss \<and> person_of pf hs = Some u \<longrightarrow> ps = {}"
    by auto
  show ?case
  proof (cases "set_user_permissions_finish pf page_id s")
    case (Inl e)
    with Cons.IH [OF rest Cons.prems(2)] show ?thesis by simp
  next
    case (Inr pf1)
    have same: "person_of pf1 = person_of pf"
      using set_user_permissions_finish_fields [OF Inr] by simp
    have "u \<in> set (persons pf1 page_id) \<and> groups pf1 page_id u = []"
    proof (cases "\<exists>hs ps. s = Got_handles (Some hs) ps \<and> person_of pf hs = Some u")
      case True
      then obtain hs ps where s: "s = Got_handles (Some hs) ps"
        and u: "person_of pf hs = Some u" by blast
      with Cons.prems(1) have "ps = {}" by auto
      with s Inr set_user_permissions_finish_self [OF _ u, of page_id "Inr pf1"]
      show ?thesis by simp
    next
      case False
      then have "\<forall>hs ps. s = Got_handles (Some hs) ps \<longrightarrow> person_of pf hs \<noteq> Some u" by blast
      from set_user_permissions_finish_other [OF Inr this] Cons.prems(2)
      show ?thesis by simp
    qed
    with Cons.IH [of pf1] rest same Inr show ?thesis by simp
  qed
qed

lemma finish_all_zero_groups:
  assumes "\<forall>hs ps. Got_handles (Some hs) ps \<in> set ss \<and> person_of pf hs = Some u \<longrightarrow> ps = {}"
    and "Got_handles (Some hs) {} \<in> set ss" and "person_of pf hs = Some u"
  shows "u \<in> set (persons (snd (finish_all pf page_id ss)) page_id) \<and>
         groups (snd (finish_all pf page_id ss)) page_id u = []"
  using assms
proof (induction ss arbitrary: pf)
  case Nil
  then show ?case by simp
next
  case (Cons s ss)
  from Cons.prems(1)
  have rest: "\<forall>hs ps. Got_handles (Some hs) ps \<in> set ss \<and> person_of pf hs = Some u \<longrightarrow> ps = {}"
    by auto
  show ?case
  proof (cases "s = Got_handles (Some hs) {}")
    case True
    from set_user_permissions_finish_self [OF refl Cons.prems(3), of page_id]
    obtain pf1 where fin: "set_user_permissions_finish pf page_id (Got_handles (Some hs) {}) = Inr pf1"
      and zero: "u \<in> set (persons pf1 page_id) \<and> groups pf1 page_id u = []" by blast
    have same: "person_of pf1 = person_of pf"
      using set_user_permissions_finish_fields [OF fin] by simp
    from finish_all_keeps_zero_groups [of ss pf1 u page_id] rest same zero True fin
    show ?thesis by simp
  next
    case False
    with Cons.prems(2) have later: "Got_handles (Some hs) {} \<in> set ss" by simp
    show ?thesis
    proof (cases "set_user_permissions_finish pf page_id s")
      case (Inl e)
      with Cons.IH [OF rest later Cons.prems(3)] show ?thesis by simp
    next
      case (Inr pf1)
      have same: "person_of pf1 = person_of pf"
        using set_user_permissions_finish_fields [OF Inr] by simp
      with Cons.IH [of pf1] rest later Cons.prems(3) Inr show ?thesis by simp
    qed
  qed
qed

lemma finish_all_Inr:
  assumes "fst (finish_all pf page_id ss) = Inr ()" and "s \<in> set ss"
  shows "s = Returned \<or> (\<exists>hs ps. s = Got_handles (Some hs) ps)"
  using assms
proof (induction ss arbitrary: pf)
  case Nil
  then show ?case by simp
next
  case (Cons t ss)
  from Cons.prems(1) obtain pf1 where
    t: "set_user_permissions_finish pf page_id t = Inr pf1"
    and more: "fst (finish_all pf1 page_id ss) = Inr ()"
    by (cases "set_user_permissions_finish pf page_id t") auto
  show ?case
  proof (cases "s = t")
    case True
    with t show ?thesis
      by (cases t) (auto simp add: set_user_permissions_finish_def split: option.splits)
  next
    case False
    with Cons.prems(2) have "s \<in> set ss" by simp
    from Cons.IH [OF more this] show ?thesis .
  qed
qed

subsection \<open>The updates of a patch\<close>

lemma gather_removes:
  assumes "handles_identify_persons pf" and "page_id \<noteq> ROOT_ORG_ID"
    and "\<forall>ps. (u, ps) \<in> set xs \<longrightarrow> ps = {}"
    and "(u, {}) \<in> set xs"
  shows "u \<notin> set (persons (snd (gather_set_user_permissions pf page_id xs)) page_id)"
proof -
  obtain ss pf1 where started: "start_all pf page_id xs = (ss, pf1)"
    by (cases "start_all pf page_id xs")
  have out: "u \<notin> set (persons pf1 page_id)"
    using start_all_removes [OF assms(2) assms(4), of pf] started by simp
  have same: "person_of pf1 = person_of pf"
    using start_all_fields [of pf page_id xs page_id] started by simp
  have "person_of pf1 hs \<noteq> Some u" if "Got_handles (Some hs) ps \<in> set ss" for hs ps
  proof -
    from that started have "Got_handles (Some hs) ps \<in> set (fst (start_all pf page_id xs))"
      by simp
    from start_all_Got_handles [OF this] assms(2) obtain v where
      v: "(v, ps) \<in> set xs" and hs: "map_of (handles pf) v = Some hs" and ps: "ps \<noteq> {}"
      by auto
    from assms(1) hs have "person_of pf hs = Some v"
      by (rule handles_identify_personsD)
    moreover from v ps assms(3) have "v \<noteq> u" by auto
    ultimately show ?thesis using same by simp
  qed
  then have "\<forall>hs ps. Got_handles (Some hs) ps \<in> set ss \<longrightarrow> person_of pf1 hs \<noteq> Some u"
    by blast
  from finish_all_keeps_out [OF this out] started show ?thesis
    by (simp add: gather_set_user_permissions_def)
qed

lemma gather_root_keeps_member:
  assumes "u \<in> set (persons pf ROOT_ORG_ID)"
  shows "u \<in> set (persons (snd (gather_set_user_permissions pf ROOT_ORG_ID xs)) ROOT_ORG_ID)"
proof -
  obtain ss pf1 where started: "start_all pf ROOT_ORG_ID xs = (ss, pf1)"
    by (cases "start_all pf ROOT_ORG_ID xs")
  with start_all_root [of pf xs] have "pf1 = pf" by simp
  with finish_all_keeps_member [OF assms, of ss] started show ?thesis
    by (simp add: gather_set_user_permissions_def)
qed

lemma gather_root_zero_groups:
  assumes "handles_identify_persons pf"
    and "\<forall>ps. (u, ps) \<in> set xs \<longrightarrow> ps = {}"
    and "(u, {}) \<in> set xs"
    and "u \<in> set (persons pf ROOT_ORG_ID)" and "map_of (handles pf) u = Some hs"
  shows "u \<in> set (persons (snd (gather_set_user_permissions pf ROOT_ORG_ID xs)) ROOT_ORG_ID) \<and>
         groups (snd (gather_set_user_permissions pf ROOT_ORG_ID xs)) ROOT_ORG_ID u = []"
proof -
  obtain ss pf1 where started: "start_all pf ROOT_ORG_ID xs = (ss, pf1)"
    by (cases "start_all pf ROOT_ORG_ID xs")
  with start_all_root [of pf xs] have pf1: "pf1 = pf" by simp
  have mine: "Got_handles (Some hs) {} \<in> set ss"
    using start_all_root_known [OF assms(3) assms(4) assms(5)] started by simp
  have u: "person_of pf hs = Some u"
    using assms(1) assms(5) by (rule handles_identify_personsD)
  have "ps = {}" if "Got_handles (Some hs') ps \<in> set ss" and "person_of pf hs' = Some u" for hs' ps
  proof -
    from that(1) started have "Got_handles (Some hs') ps \<in> set (fst (start_all pf ROOT_ORG_ID xs))"
      by simp
    from start_all_Got_handles [OF this] obtain v where
      v: "(v, ps) \<in> set xs" and hs': "map_of (handles pf) v = Some hs'" by auto
    from assms(1) hs' have "person_of pf hs' = Some v"
      by (rule handles_identify_personsD)
    with that(2) have "v = u" by simp
    with v assms(2) show ?thesis by simp
  qed
  then have "\<forall>hs' ps. Got_handles (Some hs') ps \<in> set ss \<and> person_of pf hs' = Some u \<longrightarrow> ps = {}"
    by blast
  from finish_all_zero_groups [OF this mine u, of ROOT_ORG_ID] started pf1 show ?thesis
    by (simp add: gather_set_user_permissions_def)
qed

lemma gather_root_success_known:
  assumes "fst (gather_set_user_permissions pf ROOT_ORG_ID xs) = Inr ()" and "(u, ps) \<in> set xs"
  shows "u \<in> set (persons pf ROOT_ORG_ID) \<and> (\<exists>hs. map_of (handles pf) u = Some hs)"
proof -
  obtain ss pf1 where started: "start_all pf ROOT_ORG_ID xs = (ss, pf1)"
    by (cases "start_all pf ROOT_ORG_ID xs")
  with start_all_root [of pf xs] have pf1: "pf1 = pf" by simp
  obtain s pf2 where s: "set_user_permissions_start pf u ROOT_ORG_ID ps = (s, pf2)"
    by (cases "set_user_permissions_start pf u ROOT_ORG_ID ps")
  from start_all_root_entry [OF assms(2), of pf] started s have "s \<in> set ss" by simp
  moreover from assms(1) started pf1 have "fst (finish_all pf ROOT_ORG_ID ss) = Inr ()"
    by (simp add: gather_set_user_permissions_def)
  ultimately have "s = Returned \<or> (\<exists>hs qs. s = Got_handles (Some hs) qs)"
    using finish_all_Inr by blast
  with s show ?thesis
    by (auto simp add: set_user_permissions_start_def persons_person_id_handles_get_def
        split: if_splits sum.splits)
qed

text \<open>
  The lemmas on \<open>gather_set_user_permissions\<close> above ask of the list of updates only
  which entries it has. They hold for the same updates in any other order, so the
  order of the list decides neither whether a user with the empty permission set is
  removed from a page other than the root, nor whether a member of the root page
  stays one.
\<close>

lemma gather_removes_in_any_order:
  assumes "handles_identify_persons pf" and "page_id \<noteq> ROOT_ORG_ID"
    and "\<forall>ps. (u, ps) \<in> set xs \<longrightarrow> ps = {}"
    and "(u, {}) \<in> set xs"
    and "set ys = set xs"
  shows "u \<notin> set (persons (snd (gather_set_user_permissions pf page_id ys)) page_id)"
  using assms gather_removes [of pf page_id u ys] by simp

lemma specified_users_iff:
  "((v, ps) \<in> set (specified_users us)) = (UserPermissionsPatch v (Some ps) \<in> set us)"
proof (induction us)
  case Nil
  show ?case by (simp add: specified_users_def List.map_filter_simps)
next
  case (Cons e es)
  obtain w q where e: "e = UserPermissionsPatch w q" by (cases e)
  from Cons e show ?case
    by (cases q) (auto simp add: specified_users_def List.map_filter_simps)
qed

lemma set_public_platform: "platform (set_public st page_id b) = platform st"
  by (simp add: set_public_def split: prod.splits)

lemma patch_page_settings_platform:
  assumes "patch_users updates = Some us"
    and "patch_page_settings st page_id updates = (r, st')"
  shows "gather_set_user_permissions (platform st) page_id (specified_users us) = (r, platform st')"
  using assms
  by (cases "patch_public updates")
     (auto simp add: patch_page_settings_def set_public_platform split: prod.splits)

lemma set_user_permissions_root_empty:
  assumes "handles_identify_persons pf"
    and "u \<in> set (persons pf ROOT_ORG_ID)" and "map_of (handles pf) u = Some hs"
  shows "\<exists>pf1. set_user_permissions pf u ROOT_ORG_ID {} = Inr pf1 \<and>
               u \<in> set (persons pf1 ROOT_ORG_ID) \<and> groups pf1 ROOT_ORG_ID u = []"
proof -
  have "person_of pf hs = Some u"
    using assms(1) assms(3) by (rule handles_identify_personsD)
  from set_user_permissions_finish_self [OF refl this, of ROOT_ORG_ID]
    set_user_permissions_start_known [OF assms(2) assms(3), of "{}"]
  show ?thesis by (simp add: set_user_permissions_start_finish)
qed

lemma set_user_permissions_remove:
  assumes "page_id \<noteq> ROOT_ORG_ID" and "u \<in> set (persons pf page_id)"
  shows "\<exists>pf1. set_user_permissions pf u page_id {} = Inr pf1 \<and> u \<notin> set (persons pf1 page_id)"
  using assms by (simp add: set_user_permissions_def persons_person_id_delete_def)

text \<open>
  C3. Take a patch whose list of users names \<open>u\<close> with the empty permission set (and
  with no other permission set), and any outcome \<open>(r, st')\<close> of \<open>patch_page_settings\<close>
  on a page.

  On a page other than the root, \<open>u\<close> is not a member of the page's organization
  afterwards; \<^verbatim>\<open>set_user_permissions\<close> itself, called for a member with the empty set,
  succeeds and leaves the user no member.

  On the root page a member stays a member. A member of the root whom the platform
  knows is, after the patch, a member with no groups, whatever the patch reports
  (another user's update may have failed): the groups are set to the empty list
  instead of the person being deleted. \<^verbatim>\<open>set_user_permissions\<close> itself, called on the
  root for such a member with the empty set, succeeds with that result, and the patch
  that names \<open>u\<close> alone reports success. When a patch on the root reports success,
  \<open>u\<close> is a member with no groups.

  When the patch names other users too, which person each update reaches is the
  platform's matter, so these statements are made for a platform whose handles
  identify persons; for the patch that names \<open>u\<close> alone the removal from a page other
  than the root needs no assumption on the platform.
\<close>

theorem empty_permissions_patch:
  assumes "patch_users updates = Some us"
    and "UserPermissionsPatch u (Some {}) \<in> set us"
    and "\<forall>ps. UserPermissionsPatch u (Some ps) \<in> set us \<longrightarrow> ps = {}"
    and "patch_page_settings st page_id updates = (r, st')"
  shows "(handles_identify_persons (platform st) \<and> page_id \<noteq> ROOT_ORG_ID \<longrightarrow>
            u \<notin> set (persons (platform st') page_id)) \<and>
         (us = [UserPermissionsPatch u (Some {})] \<and> page_id \<noteq> ROOT_ORG_ID \<longrightarrow>
            u \<notin> set (persons (platform st') page_id)) \<and>
         (page_id \<noteq> ROOT_ORG_ID \<and> u \<in> set (persons (platform st) page_id) \<longrightarrow>
            (\<exists>pf1. set_user_permissions (platform st) u page_id {} = Inr pf1 \<and>
                   u \<notin> set (persons pf1 page_id))) \<and>
         (page_id = ROOT_ORG_ID \<and> u \<in> set (persons (platform st) ROOT_ORG_ID) \<longrightarrow>
            u \<in> set (persons (platform st') ROOT_ORG_ID)) \<and>
         (handles_identify_persons (platform st) \<and> page_id = ROOT_ORG_ID \<and>
          u \<in> set (persons (platform st) ROOT_ORG_ID) \<and>
          map_of (handles (platform st)) u \<noteq> None \<longrightarrow>
            u \<in> set (persons (platform st') ROOT_ORG_ID) \<and>
            groups (platform st') ROOT_ORG_ID u = [] \<and>
            (us = [UserPermissionsPatch u (Some {})] \<longrightarrow> r = Inr ()) \<and>
            (\<exists>pf1. set_user_permissions (platform st) u ROOT_ORG_ID {} = Inr pf1 \<and>
                   u \<in> set (persons pf1 ROOT_ORG_ID) \<and> groups pf1 ROOT_ORG_ID u = [])) \<and>
         (handles_identify_persons (platform st) \<and> page_id = ROOT_ORG_ID \<and> r = Inr () \<longrightarrow>
            u \<in> set (persons (platform st') ROOT_ORG_ID) \<and>
            groups (platform st') ROOT_ORG_ID u = [])"
proof -
  let ?pf = "platform st"
  let ?xs = "specified_users us"
  have run: "gather_set_user_permissions ?pf page_id ?xs = (r, platform st')"
    using assms(1) assms(4) by (rule patch_page_settings_platform)
  then have after: "platform st' = snd (gather_set_user_permissions ?pf page_id ?xs)"
    and result: "r = fst (gather_set_user_permissions ?pf page_id ?xs)"
    by simp_all
  have only: "\<forall>ps. (u, ps) \<in> set ?xs \<longrightarrow> ps = {}"
    using assms(3) by (simp add: specified_users_iff)
  have entry: "(u, {}) \<in> set ?xs"
    using assms(2) by (simp add: specified_users_iff)
  have alone: "?xs = [(u, {})]" if "us = [UserPermissionsPatch u (Some {})]"
    using that by (simp add: specified_users_def List.map_filter_simps)
  have 1: "u \<notin> set (persons (platform st') page_id)"
    if "handles_identify_persons ?pf" and "page_id \<noteq> ROOT_ORG_ID"
    using gather_removes [OF that only entry] after by simp
  have 2: "u \<notin> set (persons (platform st') page_id)"
    if "us = [UserPermissionsPatch u (Some {})]" and "page_id \<noteq> ROOT_ORG_ID"
  proof -
    obtain s pf1 where s: "set_user_permissions_start ?pf u page_id {} = (s, pf1)"
      by (cases "set_user_permissions_start ?pf u page_id {}")
    with set_user_permissions_start_remove [OF that(2), of u ?pf]
    have out: "u \<notin> set (persons pf1 page_id)" by simp
    from s that(2) have "s = Returned \<or> (\<exists>e. s = Raised e)"
      by (auto simp add: set_user_permissions_start_def split: sum.splits)
    with out s after alone [OF that(1)] show ?thesis
      by (auto simp add: gather_set_user_permissions_def set_user_permissions_finish_def)
  qed
  have 3: "\<exists>pf1. set_user_permissions ?pf u page_id {} = Inr pf1 \<and> u \<notin> set (persons pf1 page_id)"
    if "page_id \<noteq> ROOT_ORG_ID" and "u \<in> set (persons ?pf page_id)"
    using that by (rule set_user_permissions_remove)
  have 4: "u \<in> set (persons (platform st') ROOT_ORG_ID)"
    if "page_id = ROOT_ORG_ID" and "u \<in> set (persons ?pf ROOT_ORG_ID)"
    using gather_root_keeps_member [OF that(2), of ?xs] after that(1) by simp
  have 5: "u \<in> set (persons (platform st') ROOT_ORG_ID) \<and>
      groups (platform st') ROOT_ORG_ID u = [] \<and>
      (us = [UserPermissionsPatch u (Some {})] \<longrightarrow> r = Inr ()) \<and>
      (\<exists>pf1. set_user_permissions ?pf u ROOT_ORG_ID {} = Inr pf1 \<and>
             u \<in> set (persons pf1 ROOT_ORG_ID) \<and> groups pf1 ROOT_ORG_ID u = [])"
    if wf: "handles_identify_persons ?pf" and root: "page_id = ROOT_ORG_ID"
      and member: "u \<in> set (persons ?pf ROOT_ORG_ID)"
      and known: "map_of (handles ?pf) u \<noteq> None"
  proof -
    from known obtain hs where hs: "map_of (handles ?pf) u = Some hs" by auto
    have zero: "u \<in> set (persons (platform st') ROOT_ORG_ID) \<and>
        groups (platform st') ROOT_ORG_ID u = []"
      using gather_root_zero_groups [OF wf only entry member hs] after root by simp
    have own: "\<exists>pf1. set_user_permissions ?pf u ROOT_ORG_ID {} = Inr pf1 \<and>
        u \<in> set (persons pf1 ROOT_ORG_ID) \<and> groups pf1 ROOT_ORG_ID u = []"
      using wf member hs by (rule set_user_permissions_root_empty)
    have "r = Inr ()" if "us = [UserPermissionsPatch u (Some {})]"
    proof -
      have u: "person_of ?pf hs = Some u"
        using wf hs by (rule handles_identify_personsD)
      from set_user_permissions_finish_self [OF refl u, of ROOT_ORG_ID]
        set_user_permissions_start_known [OF member hs, of "{}"]
        result root alone [OF that]
      show ?thesis by (auto simp add: gather_set_user_permissions_def)
    qed
    with zero own show ?thesis by simp
  qed
  have 6: "u \<in> set (persons (platform st') ROOT_ORG_ID) \<and> groups (platform st') ROOT_ORG_ID u = []"
    if wf: "handles_identify_persons ?pf" and root: "page_id = ROOT_ORG_ID" and ok: "r = Inr ()"
  proof -
    from result root ok have "fst (gather_set_user_permissions ?pf ROOT_ORG_ID ?xs) = Inr ()"
      by simp
    from gather_root_success_known [OF this entry]
    have "u \<in> set (persons ?pf ROOT_ORG_ID)" and "map_of (handles ?pf) u \<noteq> None" by auto
    from 5 [OF wf root this] show ?thesis by simp
  qed
  from 1 2 3 4 5 6 show ?thesis by blast
qed

text \<open>
  On the small deployment. On \<open>/docs\<close>, a patch that gives Alice \<open>{Read}\<close> and Bob the
  empty set: Bob, a member before, is no member afterwards. On the root page, a patch
  that names Carol, whom the platform does not know, and gives Alice the empty set:
  the patch reports the 404 of Carol's update, and Alice, who had the three groups
  before, is still a member and has no groups.
\<close>

theorem empty_permissions_patch_witness:
  "handles_identify_persons (platform demo_state) \<and>
   ''bob'' \<in> set (persons (platform demo_state) ''org-docs'') \<and>
   ''bob'' \<notin> set (persons (platform (snd (patch_page_settings demo_state ''org-docs''
       (PageSettingsPatch None
          (Some [UserPermissionsPatch ''alice'' (Some {Read}),
                 UserPermissionsPatch ''bob'' (Some {})]))))) ''org-docs'') \<and>
   ''alice'' \<in> set (persons (platform demo_state) ROOT_ORG_ID) \<and>
   groups (platform demo_state) ROOT_ORG_ID ''alice'' = [''admin'', ''read'', ''write''] \<and>
   fst (patch_page_settings demo_state ROOT_ORG_ID
       (PageSettingsPatch None
          (Some [UserPermissionsPatch ''carol'' (Some {Read}),
                 UserPermissionsPatch ''alice'' (Some {})]))) = Inl (ApiException HTTP_404_NOT_FOUND) \<and>
   ''alice'' \<in> set (persons (platform (snd (patch_page_settings demo_state ROOT_ORG_ID
       (PageSettingsPatch None
          (Some [UserPermissionsPatch ''carol'' (Some {Read}),
                 UserPermissionsPatch ''alice'' (Some {})]))))) ROOT_ORG_ID) \<and>
   groups (platform (snd (patch_page_settings demo_state ROOT_ORG_ID
       (PageSettingsPatch None
          (Some [UserPermissionsPatch ''carol'' (Some {Read}),
                 UserPermissionsPatch ''alice'' (Some {})]))))) ROOT_ORG_ID ''alice'' = []"
proof -
  let ?docs = "[UserPermissionsPatch ''alice'' (Some {Read}), UserPermissionsPatch ''bob'' (Some {})]"
  let ?root = "[UserPermissionsPatch ''carol'' (Some {Read}), UserPermissionsPatch ''alice'' (Some {})]"
  let ?a = "patch_page_settings demo_state ''org-docs'' (PageSettingsPatch None (Some ?docs))"
  let ?b = "patch_page_settings demo_state ROOT_ORG_ID (PageSettingsPatch None (Some ?root))"
  have docs: "patch_users (PageSettingsPatch None (Some ?docs)) = Some ?docs" by simp
  have bob: "UserPermissionsPatch ''bob'' (Some {}) \<in> set ?docs" by simp
  have only_bob: "\<forall>ps. UserPermissionsPatch ''bob'' (Some ps) \<in> set ?docs \<longrightarrow> ps = {}" by simp
  have a: "?a = (fst ?a, snd ?a)" by simp
  have root: "patch_users (PageSettingsPatch None (Some ?root)) = Some ?root" by simp
  have alice: "UserPermissionsPatch ''alice'' (Some {}) \<in> set ?root" by simp
  have only_alice: "\<forall>ps. UserPermissionsPatch ''alice'' (Some ps) \<in> set ?root \<longrightarrow> ps = {}" by simp
  have b: "?b = (fst ?b, snd ?b)" by simp
  from empty_permissions_patch [OF docs bob only_bob a]
    empty_permissions_patch [OF root alice only_alice b]
    demo_identify demo_docs_not_root demo_bob_member_docs
    demo_alice_member_root demo_alice_known demo_alice_groups_root demo_patch_root_reports
  show ?thesis by simp
qed

section \<open>Properties of page creation and deletion\<close>

text \<open>
  C4. \<open>post_page\<close> for a page that already exists (its \<open>page_id\<close> is not \<open>None\<close>)
  raises 409 and leaves the state, the stored page with it, as it was. Through the
  route this is the answer to every request that carries a valid token; with any
  token, a request for an existing page never succeeds and never changes the state.
\<close>

theorem post_page_conflict:
  "post_page cfg st person_id page_path (Some existing) body =
     (Inl (HTTPException HTTP_409_CONFLICT (Detail ''Page already exists'')), st) \<and>
   (get_user_id cfg token = Inr (Some u) \<and>
    get_page_id cfg (platform st) (get_page_path raw_path) = Some existing \<longrightarrow>
      post_page_route cfg st token raw_path body =
        (Inl (HTTPException HTTP_409_CONFLICT (Detail ''Page already exists'')), st)) \<and>
   (get_page_id cfg (platform st) (get_page_path raw_path) = Some existing \<longrightarrow>
      fst (post_page_route cfg st token raw_path body) \<noteq> Inr () \<and>
      snd (post_page_route cfg st token raw_path body) = st)"
  by (auto simp add: post_page_def post_page_route_def require_user_id_def
      split: sum.splits option.splits)

text \<open>
  On the small deployment: Alice posts to \<open>/docs\<close>, which exists; the answer is 409
  and the stored page keeps its contents.
\<close>

theorem post_page_conflict_witness:
  "post_page_route demo_config demo_state (Some ''token-alice'') ''/docs/'' ''#00ff00'' =
     (Inl (HTTPException HTTP_409_CONFLICT (Detail ''Page already exists'')), demo_state) \<and>
   pages demo_state ''org-docs'' = Some \<lparr>public = True, contents = ''#ff0000''\<rparr>"
  using post_page_conflict [of demo_config demo_state "''alice''" "[''docs'']" "''org-docs''"
      "''#00ff00''" "Some ''token-alice''" "''alice''" "''/docs/''"]
    demo_user_alice demo_page_docs demo_docs_stored
  by simp

lemma organizations_suborganizations_post_Some:
  assumes "organizations_suborganizations_post pf parent name admins = Inr (Some new_id, pf1)"
  shows "get_org_id pf1 name = Some new_id"
proof -
  from assms have free: "map_of (organizations pf) name = None"
    by (auto simp add: organizations_suborganizations_post_def map_of_eq_None_iff
        split: if_splits)
  from assms have "organizations pf1 = organizations pf @ [(name, new_id)]"
    by (auto simp add: organizations_suborganizations_post_def split: if_splits list.splits)
  with free show ?thesis
    by (simp add: get_org_id_def map_add_def)
qed

lemma set_user_permissions_get_org_id:
  assumes "set_user_permissions pf v page_id ps = Inr pf'"
  shows "get_org_id pf' name = get_org_id pf name"
  using set_user_permissions_fields [OF assms] by (simp add: get_org_id_def)

text \<open>
  C5. When \<open>post_page\<close> succeeds, the parent page exists, the path of the new page now
  resolves to a page identifier, and the page stored under that identifier has the
  public flag of the parent's page as it was when the handler was called (the default
  page, not public, if the parent had none stored) and the body as its contents. The
  creating user's permissions do not enter the stored page.
\<close>

theorem post_page_inherits_public:
  assumes "post_page cfg st person_id page_path page_id body = (Inr (), st')"
  shows "\<exists>parent_page_id new_page_id.
           get_page_id cfg (platform st) (butlast page_path) = Some parent_page_id \<and>
           get_page_id cfg (platform st') page_path = Some new_page_id \<and>
           pages st' new_page_id =
             Some \<lparr>public = public (fst (pages_getitem (pages st) parent_page_id)),
                   contents = body\<rparr>"
proof -
  from assms have none: "page_id = None"
    by (auto simp add: post_page_def split: if_splits)
  from assms none obtain parent_page_id where
    parent: "get_page_id cfg (platform st) (butlast page_path) = Some parent_page_id"
    by (cases "get_page_id cfg (platform st) (butlast page_path)")
       (auto simp add: post_page_def require_page_id_def)
  from assms none parent obtain perms where
    perms: "require_permissions [Admin] (platform st) (Some person_id) (Some parent_page_id) = Inr perms"
    by (cases "require_permissions [Admin] (platform st) (Some person_id) (Some parent_page_id)")
       (auto simp add: post_page_def require_page_id_def)
  from assms none parent perms obtain new_page_id pf1 where
    created: "organizations_suborganizations_post (platform st) parent_page_id
                (org_name (ROOT_ORG_NAME cfg) page_path)
                (map (PersonHandle EMAIL_ADDRESS) ADMIN_EMAILS) = Inr (Some new_page_id, pf1)"
    by (auto simp add: post_page_def require_page_id_def split: sum.splits option.splits)
  from assms none parent perms created obtain pf2 where
    granted: "set_user_permissions pf1 person_id new_page_id perms = Inr pf2"
    by (auto simp add: post_page_def require_page_id_def split: sum.splits)
  from assms none parent perms created granted
  have after: "st' = st\<lparr>pages := (snd (pages_getitem (pages st) parent_page_id))
                          (new_page_id \<mapsto>
                             \<lparr>public = public (fst (pages_getitem (pages st) parent_page_id)),
                              contents = body\<rparr>),
                        platform := pf2\<rparr>"
    by (auto simp add: post_page_def require_page_id_def split: prod.splits)
  have "get_org_id pf2 (org_name (ROOT_ORG_NAME cfg) page_path) = Some new_page_id"
    using organizations_suborganizations_post_Some [OF created]
      set_user_permissions_get_org_id [OF granted] by simp
  then have "get_page_id cfg (platform st') page_path = Some new_page_id"
    using after by (simp add: get_page_id_def)
  moreover have "pages st' new_page_id =
      Some \<lparr>public = public (fst (pages_getitem (pages st) parent_page_id)), contents = body\<rparr>"
    using after by simp
  ultimately show ?thesis using parent by blast
qed

text \<open>
  On the small deployment: Alice, with every permission on the public page \<open>/docs\<close>,
  creates \<open>/docs/new\<close>, which is stored public; Bob, with \<open>Admin\<close> alone on \<open>/notes\<close>,
  which is not public, creates \<open>/notes/new\<close>, which is stored not public.
\<close>

theorem post_page_inherits_public_witness:
  "fst (post_page demo_config demo_state ''alice'' [''docs'', ''new''] None ''#123456'') = Inr () \<and>
   (\<exists>new_page_id.
      get_page_id demo_config
        (platform (snd (post_page demo_config demo_state ''alice'' [''docs'', ''new''] None ''#123456'')))
        [''docs'', ''new''] = Some new_page_id \<and>
      pages (snd (post_page demo_config demo_state ''alice'' [''docs'', ''new''] None ''#123456''))
        new_page_id = Some \<lparr>public = True, contents = ''#123456''\<rparr>) \<and>
   fst (post_page demo_config demo_state ''bob'' [''notes'', ''new''] None ''#654321'') = Inr () \<and>
   (\<exists>new_page_id.
      get_page_id demo_config
        (platform (snd (post_page demo_config demo_state ''bob'' [''notes'', ''new''] None ''#654321'')))
        [''notes'', ''new''] = Some new_page_id \<and>
      pages (snd (post_page demo_config demo_state ''bob'' [''notes'', ''new''] None ''#654321''))
        new_page_id = Some \<lparr>public = False, contents = ''#654321''\<rparr>)"
proof -
  let ?a = "post_page demo_config demo_state ''alice'' [''docs'', ''new''] None ''#123456''"
  let ?b = "post_page demo_config demo_state ''bob'' [''notes'', ''new''] None ''#654321''"
  have a: "?a = (Inr (), snd ?a)"
    using demo_post_docs_new by (cases ?a) simp
  have b: "?b = (Inr (), snd ?b)"
    using demo_post_notes_new by (cases ?b) simp
  from post_page_inherits_public [OF a] demo_parent_docs demo_docs_stored
  have "\<exists>new_page_id. get_page_id demo_config (platform (snd ?a)) [''docs'', ''new''] = Some new_page_id \<and>
      pages (snd ?a) new_page_id = Some \<lparr>public = True, contents = ''#123456''\<rparr>"
    by (auto simp add: pages_getitem_def)
  moreover from post_page_inherits_public [OF b] demo_parent_notes demo_notes_not_stored
  have "\<exists>new_page_id. get_page_id demo_config (platform (snd ?b)) [''notes'', ''new''] = Some new_page_id \<and>
      pages (snd ?b) new_page_id = Some \<lparr>public = False, contents = ''#654321''\<rparr>"
    by (auto simp add: pages_getitem_def default_page_def)
  ultimately show ?thesis
    using demo_post_docs_new demo_post_notes_new by simp
qed

text \<open>
  C9. \<open>delete_page\<close> raises 501 for every page and leaves the state as it was. The
  route never succeeds and never changes the state: a request that passes the
  \<open>Admin\<close> check gets the 501, any other the error of the check.
\<close>

theorem delete_page_not_implemented:
  "delete_page st page_id =
     (Inl (HTTPException HTTP_501_NOT_IMPLEMENTED
             (Detail ''Suborg removal not implemented by SlashID API'')), st) \<and>
   snd (delete_page_route cfg st token raw_path) = st \<and>
   fst (delete_page_route cfg st token raw_path) \<noteq> Inr () \<and>
   (depends_require_permissions [Admin] cfg st token raw_path = Inr S \<longrightarrow>
      delete_page_route cfg st token raw_path =
        (Inl (HTTPException HTTP_501_NOT_IMPLEMENTED
                (Detail ''Suborg removal not implemented by SlashID API'')), st))"
  by (simp add: delete_page_def delete_page_route_cases split: sum.splits)

text \<open>
  On the small deployment: Alice, an admin of \<open>/docs\<close>, asks for its deletion and gets
  the 501; the state is unchanged.
\<close>

theorem delete_page_not_implemented_witness:
  "depends_require_permissions [Admin] demo_config demo_state (Some ''token-alice'') ''/docs/'' =
     Inr {Admin, Read, Write} \<and>
   delete_page_route demo_config demo_state (Some ''token-alice'') ''/docs/'' =
     (Inl (HTTPException HTTP_501_NOT_IMPLEMENTED
             (Detail ''Suborg removal not implemented by SlashID API'')), demo_state)"
  using delete_page_not_implemented [of demo_state "''org-docs''" demo_config
      "Some ''token-alice''" "''/docs/''" "{Admin, Read, Write}"]
    demo_alice_admin_docs
  by simp

section \<open>Requests without a caller\<close>

text \<open>
  C8, as stated, fails on a public page: the route that reads a page takes the caller
  from \<^verbatim>\<open>get_user_id\<close>, not from \<^verbatim>\<open>require_user_id\<close>, and asks for permissions only when
  the page is not public. A request without a token for the public page \<open>/docs\<close> of
  the small deployment is answered with the contents.
\<close>

theorem public_page_without_caller_counterexample:
  "pages demo_state ''org-docs'' = Some \<lparr>public = True, contents = ''#ff0000''\<rparr> \<and>
   get_page_id demo_config (platform demo_state) (get_page_path ''/docs/'') = Some ''org-docs'' \<and>
   get_page_route demo_config demo_state None ''/docs/'' = (Inr ''#ff0000'', demo_state) \<and>
   fst (get_page_route demo_config demo_state None ''/docs/'') \<noteq>
     Inl (HTTPException HTTP_401_UNAUTHORIZED (Detail ''Requires user credentials''))"
proof -
  have "get_user_id demo_config None = Inr None"
    by (simp add: get_user_id_def)
  then have "get_page_route demo_config demo_state None ''/docs/'' =
      get_page demo_state None ''org-docs''"
    using demo_page_docs by (rule get_page_route_known)
  then show ?thesis
    using demo_docs_stored demo_page_docs
    by (simp add: get_page_stored_public)
qed

text \<open>
  C8, amended. A request without a token to write, delete or create a page, or to read
  or change a page's settings, is answered 401 and changes nothing. A request without
  a token to read an existing page is answered 401 when the page is not public, and
  with the contents when it is. The 401 is not the 403 of a refused permission.
\<close>

theorem no_caller_unauthenticated:
  "put_page_route cfg st None raw_path body =
     (Inl (HTTPException HTTP_401_UNAUTHORIZED (Detail ''Requires user credentials'')), st) \<and>
   delete_page_route cfg st None raw_path =
     (Inl (HTTPException HTTP_401_UNAUTHORIZED (Detail ''Requires user credentials'')), st) \<and>
   post_page_route cfg st None raw_path body =
     (Inl (HTTPException HTTP_401_UNAUTHORIZED (Detail ''Requires user credentials'')), st) \<and>
   get_page_settings_route cfg st None raw_path =
     (Inl (HTTPException HTTP_401_UNAUTHORIZED (Detail ''Requires user credentials'')), st) \<and>
   patch_page_settings_route cfg st None raw_path updates =
     (Inl (HTTPException HTTP_401_UNAUTHORIZED (Detail ''Requires user credentials'')), st) \<and>
   (get_page_id cfg (platform st) (get_page_path raw_path) = Some page_id \<longrightarrow>
      fst (get_page_route cfg st None raw_path) =
        (if public (fst (pages_getitem (pages st) page_id))
         then Inr (contents (fst (pages_getitem (pages st) page_id)))
         else Inl (HTTPException HTTP_401_UNAUTHORIZED (Detail ''Requires user credentials'')))) \<and>
   HTTPException HTTP_401_UNAUTHORIZED (Detail ''Requires user credentials'') \<noteq>
     HTTPException HTTP_403_FORBIDDEN d"
proof -
  have "get_user_id cfg None = Inr None"
    by (simp add: get_user_id_def)
  then have "get_page_route cfg st None raw_path = get_page st None page_id"
    if "get_page_id cfg (platform st) (get_page_path raw_path) = Some page_id"
    using that by (rule get_page_route_known)
  then show ?thesis
    by (simp add: put_page_route_def delete_page_route_def get_page_settings_route_def
        patch_page_settings_route_def depends_require_permissions_no_token
        post_page_route_def get_user_id_def require_user_id_def
        get_page_no_user get_page_public)
qed

text \<open>
  On the small deployment: the page \<open>/notes\<close> exists and is not public; a request
  without a token to read it is answered 401.
\<close>

theorem no_caller_unauthenticated_witness:
  "get_page_id demo_config (platform demo_state) (get_page_path ''/notes'') = Some ''org-notes'' \<and>
   fst (get_page_route demo_config demo_state None ''/notes'') =
     Inl (HTTPException HTTP_401_UNAUTHORIZED (Detail ''Requires user credentials''))"
  using no_caller_unauthenticated [of demo_config demo_state "''/notes''" _ _ "''org-notes''"]
    demo_page_notes demo_notes_not_public
  by simp

section \<open>Properties of the route guard of the frontend\<close>

text \<open>
  C10, as stated, fails while a query is loading or has failed: the component returns
  the loading indicator or the error page before it looks at the public flag. Here
  the \<^verbatim>\<open>users/me\<close> query has failed and the page's admin info reports
  \<open>public = true\<close>; the error page is rendered, not the children.
\<close>

theorem AssertGroups_groups_error_counterexample:
  "AssertGroups [''write''] ''children'' ''fallback''
     \<lparr>raw = [], isGroupsLoading = False, isGroupsError = True,
      data = Some (AdminPageInfo True []),
      isAdminPageInfoLoading = False, isAdminPageInfoError = False\<rparr> = Oops \<and>
   AssertGroups [''write''] ''children'' ''fallback''
     \<lparr>raw = [], isGroupsLoading = False, isGroupsError = True,
      data = Some (AdminPageInfo True []),
      isAdminPageInfoLoading = False, isAdminPageInfoError = False\<rparr> \<noteq> Element ''children''"
  by (simp add: AssertGroups_def)

text \<open>
  C10, amended. Once neither query is loading and neither has failed, \<open>AssertGroups\<close>
  renders the children whenever the page's admin info reports \<open>public = true\<close>, for
  every list \<open>belongsTo\<close> of required permissions (also with \<open>write\<close> or \<open>admin\<close> in
  it) and whatever the caller's groups are: the bypass of the frontend is not limited
  to reading.
\<close>

theorem AssertGroups_public:
  assumes "\<not> isGroupsLoading h" and "\<not> isAdminPageInfoLoading h"
    and "\<not> isGroupsError h" and "\<not> isAdminPageInfoError h"
    and "data h = Some info" and "info_public info"
  shows "AssertGroups belongsTo children fallback h = Element children"
  using assms by (simp add: AssertGroups_def optional_public_def)

text \<open>
  A caller without any group, on a route that requires \<open>write\<close> and \<open>admin\<close>, for a
  public page: the children are rendered, although a required group is missing.
\<close>

theorem AssertGroups_public_witness:
  "AssertGroups [''write'', ''admin''] ''children'' ''fallback''
     \<lparr>raw = [], isGroupsLoading = False, isGroupsError = False,
      data = Some (AdminPageInfo True []),
      isAdminPageInfoLoading = False, isAdminPageInfoError = False\<rparr>
   = Element ''children'' \<and>
   missing_group [''write'', ''admin''] []"
  using AssertGroups_public [of "\<lparr>raw = [], isGroupsLoading = False, isGroupsError = False,
      data = Some (AdminPageInfo True []),
      isAdminPageInfoLoading = False, isAdminPageInfoError = False\<rparr>"
      "AdminPageInfo True []" "[''write'', ''admin'']" "''children''" "''fallback''"]
  by simp

end
